theory Spec2Isabelle
  imports Main "HOL-Library.Word"
begin

section \<open>JavaScript strings\<close>

text \<open>
  A JavaScript string is a sequence of UTF-16 code units; \<open>length\<close>, \<open>slice\<close>, \<open>trim\<close>
  and the regular expressions of the source (none has the \<open>u\<close> flag) all work on code
  units. A code unit is a 16-bit word. \<open>js\<close> turns an ASCII literal into such a string.
\<close>

type_synonym jschar = "16 word"
type_synonym jsstr = "jschar list"

definition js :: "string \<Rightarrow> jsstr" where
  "js s = map of_char s"

text \<open>
  The characters \<open>String.prototype.trim\<close> removes and the class \<open>\s\<close> matches are the
  same set: WhiteSpace (TAB, VT, FF, SP, NBSP, ZWNBSP and the category Zs) and
  LineTerminator (LF, CR, LS, PS).
\<close>

definition isLineTerminator :: "jschar \<Rightarrow> bool" where
  "isLineTerminator c = (c = 0x0A \<or> c = 0x0D \<or> c = 0x2028 \<or> c = 0x2029)"

definition isSpace :: "jschar \<Rightarrow> bool" where
  "isSpace c =
     (c = 0x09 \<or> c = 0x0B \<or> c = 0x0C \<or> c = 0x20 \<or> c = 0xA0 \<or> c = 0x1680
      \<or> (0x2000 \<le> c \<and> c \<le> 0x200A) \<or> c = 0x202F \<or> c = 0x205F \<or> c = 0x3000
      \<or> c = 0xFEFF \<or> isLineTerminator c)"

text \<open>The class \<open>\w\<close>, which decides where \<open>\b\<close> holds: \<open>[A-Za-z0-9_]\<close>.\<close>

definition isWordChar :: "jschar \<Rightarrow> bool" where
  "isWordChar c =
     ((0x30 \<le> c \<and> c \<le> 0x39) \<or> (0x41 \<le> c \<and> c \<le> 0x5A) \<or> c = 0x5F
      \<or> (0x61 \<le> c \<and> c \<le> 0x7A))"

text \<open>
  Canonicalize of a regular expression with the \<open>i\<close> flag and without the \<open>u\<close> flag:
  the code unit is upper-cased, but a unit of 128 or more is never mapped below 128.
  The patterns of the source are ASCII letters, so only the ASCII part of the mapping
  decides a comparison with them; above 127 a unit is left as it is.
\<close>

definition canonicalize :: "jschar \<Rightarrow> jschar" where
  "canonicalize c = (if 0x61 \<le> c \<and> c \<le> 0x7A then c - 0x20 else c)"

definition trim :: "jsstr \<Rightarrow> jsstr" where
  "trim s = rev (dropWhile isSpace (rev (dropWhile isSpace s)))"

text \<open>\<open>String.prototype.startsWith\<close>.\<close>

definition startsWith :: "jsstr \<Rightarrow> jsstr \<Rightarrow> bool" where
  "startsWith s p = (take (length p) s = p)"

section \<open>The query classifier (safety.ts)\<close>

record SafetyResult =
  allowed :: bool
  reason :: "jsstr option"

definition MUTATION_KEYWORDS :: "jsstr list" where
  "MUTATION_KEYWORDS =
     [js ''INSERT'', js ''UPDATE'', js ''DELETE'', js ''DROP'', js ''ALTER'',
      js ''TRUNCATE'', js ''CREATE'', js ''REPLACE'', js ''MERGE'', js ''GRANT'',
      js ''REVOKE'']"

subsection \<open>stripLiteralsAndComments\<close>

text \<open>
  \<open>/'(?:[^'\\]|\\.)*'/g\<close> and its double-quoted twin. After the opening quote \<open>q\<close> the
  loop takes either one unit that is neither \<open>q\<close> nor a backslash, or a backslash and one
  unit that is no line terminator; the two alternatives exclude each other and every
  position the loop can give back holds no quote, so backtracking finds nothing the
  greedy run misses. \<open>skipQuoted\<close> is that run: the text after the closing quote, or
  \<open>None\<close> when the match fails.
\<close>

fun skipQuoted :: "jschar \<Rightarrow> jsstr \<Rightarrow> jsstr option" where
  "skipQuoted q [] = None"
| "skipQuoted q [c] = (if c = q then Some [] else None)"
| "skipQuoted q (c # d # ds) =
     (if c = q then Some (d # ds)
      else if c = 0x5C then (if isLineTerminator d then None else skipQuoted q ds)
      else skipQuoted q (d # ds))"

lemma skipQuoted_length: "skipQuoted q s = Some r \<Longrightarrow> length r < length s"
  by (induction q s rule: skipQuoted.induct) (auto split: if_splits)

text \<open>
  The global replace by the empty string: at a position where the expression matches,
  the match is dropped and the scan goes on after it; elsewhere the unit is kept.
\<close>

function stripQuoted :: "jschar \<Rightarrow> jsstr \<Rightarrow> jsstr" where
  "stripQuoted q [] = []"
| "stripQuoted q (c # cs) =
     (if c = q then
        (case skipQuoted q cs of
           Some rest \<Rightarrow> stripQuoted q rest
         | None \<Rightarrow> c # stripQuoted q cs)
      else c # stripQuoted q cs)"
  by pat_completeness auto
termination
  by (relation "measure (\<lambda>(q, s). length s)") (auto dest: skipQuoted_length)

text \<open>
  \<open>/\/\*[\s\S]*?\*\//g\<close>: after \<open>/*\<close> the lazy loop stops at the first \<open>*/\<close>.
\<close>

fun skipBlock :: "jsstr \<Rightarrow> jsstr option" where
  "skipBlock (c # d # ds) = (if c = 0x2A \<and> d = 0x2F then Some ds else skipBlock (d # ds))"
| "skipBlock _ = None"

lemma skipBlock_length: "skipBlock s = Some r \<Longrightarrow> length r < length s"
  by (induction s rule: skipBlock.induct) (auto split: if_splits)

function stripBlockComments :: "jsstr \<Rightarrow> jsstr" where
  "stripBlockComments (c # d # ds) =
     (if c = 0x2F \<and> d = 0x2A then
        (case skipBlock ds of
           Some rest \<Rightarrow> stripBlockComments rest
         | None \<Rightarrow> c # stripBlockComments (d # ds))
      else c # stripBlockComments (d # ds))"
| "stripBlockComments [c] = [c]"
| "stripBlockComments [] = []"
  by pat_completeness auto
termination
  by (relation "measure length") (auto dest: skipBlock_length)

text \<open>\<open>/--[^\n]*/g\<close>: from \<open>--\<close> up to, and without, the next line feed.\<close>

function stripLineComments :: "jsstr \<Rightarrow> jsstr" where
  "stripLineComments (c # d # ds) =
     (if c = 0x2D \<and> d = 0x2D then stripLineComments (dropWhile (\<lambda>x. x \<noteq> 0x0A) ds)
      else c # stripLineComments (d # ds))"
| "stripLineComments [c] = [c]"
| "stripLineComments [] = []"
  by pat_completeness auto
termination
  by (relation "measure length") (auto simp: less_Suc_eq_le le_SucI length_dropWhile_le)

definition stripLiteralsAndComments :: "jsstr \<Rightarrow> jsstr" where
  "stripLiteralsAndComments sql =
     stripLineComments (stripBlockComments (stripQuoted 0x22 (stripQuoted 0x27 sql)))"

subsection \<open>validateQuery\<close>

text \<open>
  \<open>trimmed.replace(/;\s*$/, "")\<close>: the leftmost semicolon that only white space
  separates from the end of the text is removed with all that follows it.
\<close>

fun stripTrailingSemicolon :: "jsstr \<Rightarrow> jsstr" where
  "stripTrailingSemicolon [] = []"
| "stripTrailingSemicolon (c # cs) =
     (if c = 0x3B \<and> list_all isSpace cs then [] else c # stripTrailingSemicolon cs)"

text \<open>
  \<open>new RegExp(`\\b${keyword}\\b`, "i").test(sanitized)\<close>. \<open>prevW\<close> says whether the
  unit before the current position is a word character (\<open>False\<close> at the start).
\<close>

definition atBoundary :: "bool \<Rightarrow> jsstr \<Rightarrow> bool" where
  "atBoundary prevW s = (prevW \<noteq> (case s of [] \<Rightarrow> False | c # _ \<Rightarrow> isWordChar c))"

fun matchLiteral :: "bool \<Rightarrow> jsstr \<Rightarrow> jsstr \<Rightarrow> (bool \<times> jsstr) option" where
  "matchLiteral prevW [] s = Some (prevW, s)"
| "matchLiteral prevW (p # ps) [] = None"
| "matchLiteral prevW (p # ps) (c # cs) =
     (if canonicalize c = canonicalize p then matchLiteral (isWordChar c) ps cs else None)"

definition matchWordHere :: "bool \<Rightarrow> jsstr \<Rightarrow> jsstr \<Rightarrow> bool" where
  "matchWordHere prevW kw s =
     (atBoundary prevW s \<and>
      (case matchLiteral prevW kw s of
         None \<Rightarrow> False
       | Some (w, rest) \<Rightarrow> atBoundary w rest))"

fun testWordFrom :: "bool \<Rightarrow> jsstr \<Rightarrow> jsstr \<Rightarrow> bool" where
  "testWordFrom prevW kw [] = matchWordHere prevW kw []"
| "testWordFrom prevW kw (c # cs) =
     (matchWordHere prevW kw (c # cs) \<or> testWordFrom (isWordChar c) kw cs)"

definition testWord :: "jsstr \<Rightarrow> jsstr \<Rightarrow> bool" where
  "testWord kw s = testWordFrom False kw s"

definition blockedReason :: "jsstr \<Rightarrow> jsstr" where
  "blockedReason keyword =
     keyword @ js '' blocked '' @ [0x2014] @
     js '' mutations are disabled for this connection. Set allowMutations: true in config or per-connection readOnly: false to allow writes.''"

text \<open>The \<open>for\<close> loop over \<open>MUTATION_KEYWORDS\<close>: the first keyword found denies.\<close>

fun scanKeywords :: "jsstr list \<Rightarrow> jsstr \<Rightarrow> SafetyResult" where
  "scanKeywords [] sanitized = \<lparr>allowed = True, reason = None\<rparr>"
| "scanKeywords (keyword # rest) sanitized =
     (if testWord keyword sanitized
      then \<lparr>allowed = False, reason = Some (blockedReason keyword)\<rparr>
      else scanKeywords rest sanitized)"

definition validateQuery :: "jsstr \<Rightarrow> bool \<Rightarrow> SafetyResult" where
  "validateQuery query allowMutations =
     (if allowMutations then \<lparr>allowed = True, reason = None\<rparr>
      else
        let trimmed = trim query;
            stripped = stripTrailingSemicolon trimmed
        in if 0x3B \<in> set stripped
           then \<lparr>allowed = False, reason = Some (js ''multiple statements not allowed'')\<rparr>
           else scanKeywords MUTATION_KEYWORDS (stripLiteralsAndComments trimmed))"

subsection \<open>The other copy of safety.ts\<close>

text \<open>
  The repository holds a second copy of the module, whose \<open>validateQuery\<close> tests the
  patterns \<open>/^\s*KEYWORD\b/i\<close> on the trimmed text: only the leading token can deny. Its
  reason starts with \<open>trimmed.split(/\s+/)[0].toUpperCase()\<close>. The specification
  describes the copy modelled above; this one is kept apart under the name
  \<open>validateQuery_leading\<close>.
\<close>

definition MUTATION_PATTERNS :: "jsstr list" where
  "MUTATION_PATTERNS =
     [js ''INSERT'', js ''UPDATE'', js ''DELETE'', js ''DROP'', js ''ALTER'',
      js ''TRUNCATE'', js ''CREATE'', js ''REPLACE'', js ''MERGE'', js ''GRANT'',
      js ''REVOKE'']"

definition testLeading :: "jsstr \<Rightarrow> jsstr \<Rightarrow> bool" where
  "testLeading kw s =
     (case matchLiteral False kw (dropWhile isSpace s) of
        None \<Rightarrow> False
      | Some (w, rest) \<Rightarrow> atBoundary w rest)"

fun scanPatterns :: "(jsstr \<Rightarrow> jsstr) \<Rightarrow> jsstr list \<Rightarrow> jsstr \<Rightarrow> SafetyResult" where
  "scanPatterns toUpperCase [] trimmed = \<lparr>allowed = True, reason = None\<rparr>"
| "scanPatterns toUpperCase (kw # rest) trimmed =
     (if testLeading kw trimmed
      then \<lparr>allowed = False,
            reason = Some (blockedReason
              (toUpperCase (takeWhile (\<lambda>c. \<not> isSpace c) trimmed)))\<rparr>
      else scanPatterns toUpperCase rest trimmed)"

definition validateQuery_leading :: "(jsstr \<Rightarrow> jsstr) \<Rightarrow> jsstr \<Rightarrow> bool \<Rightarrow> SafetyResult" where
  "validateQuery_leading toUpperCase query allowMutations =
     (if allowMutations then \<lparr>allowed = True, reason = None\<rparr>
      else scanPatterns toUpperCase MUTATION_PATTERNS (trim query))"

text \<open>
  The words of the specification for the multi-statement test: one trailing terminator
  is removed when the text ends with one.
\<close>

definition stripOneTerminator :: "jsstr \<Rightarrow> jsstr" where
  "stripOneTerminator t = (if t \<noteq> [] \<and> last t = 0x3B then butlast t else t)"



text \<open>
  A whole-word occurrence in the words of the specification: the text splits into a
  part before, a part that equals the keyword up to letter case, and a part after, with
  no word character next to the middle part on either side.
\<close>

definition containsWord :: "jsstr \<Rightarrow> jsstr \<Rightarrow> bool" where
  "containsWord kw s =
     (\<exists>pre mid post. s = pre @ mid @ post \<and> map canonicalize mid = map canonicalize kw \<and>
        (pre = [] \<or> \<not> isWordChar (last pre)) \<and> (post = [] \<or> \<not> isWordChar (hd post)))"

text \<open>
  The text outside literals and comments, in the words of the specification: one pass
  from left to right in which a single-quoted literal, a double-quoted identifier, a
  block comment or a line comment starts only outside every other such region. The
  regions are those of the expressions above (a quote with no closing quote, or \<open>/*\<close>
  with no \<open>*/\<close>, starts nothing). A region leaves a gap, written as one space, so that
  what stands on its two sides stays apart: the words of the result are the words that
  stand outside the regions.
\<close>

lemma skipBlock_tl_length: "skipBlock (tl cs) = Some r \<Longrightarrow> length r < Suc (length cs)"
  using skipBlock_length [of "tl cs" r] by simp

lemma dropWhile_tl_length: "length (dropWhile P (tl cs)) < Suc (length cs)"
  using length_dropWhile_le [of P "tl cs"] by simp

function outsideText :: "jsstr \<Rightarrow> jsstr" where
  "outsideText [] = []"
| "outsideText (c # cs) =
     (if c = 0x27 \<or> c = 0x22 then
        (case skipQuoted c cs of
           Some rest \<Rightarrow> 0x20 # outsideText rest
         | None \<Rightarrow> c # outsideText cs)
      else if c = 0x2F \<and> startsWith cs [0x2A] then
        (case skipBlock (tl cs) of
           Some rest \<Rightarrow> 0x20 # outsideText rest
         | None \<Rightarrow> c # outsideText cs)
      else if c = 0x2D \<and> startsWith cs [0x2D] then
        0x20 # outsideText (dropWhile (\<lambda>x. x \<noteq> 0x0A) (tl cs))
      else c # outsideText cs)"
  by pat_completeness auto
termination
  by (relation "measure length")
     (auto dest: skipQuoted_length skipBlock_tl_length simp: dropWhile_tl_length le_imp_less_Suc)

subsection \<open>Texts given by their literals and comments\<close>

text \<open>
  A text written as the sequence of its pieces: text outside every region, a
  single-quoted literal, a double-quoted identifier, a block comment or a line comment,
  each region given by what stands between its delimiters. \<open>renderAll\<close> is the text
  itself and \<open>joined\<close> the outside texts put end to end, which is what remains when
  every region is replaced by the empty string.
\<close>

datatype piece = Text jsstr | Single jsstr | Double jsstr | Block jsstr | Line jsstr

fun render :: "piece \<Rightarrow> jsstr" where
  "render (Text t) = t"
| "render (Single b) = 0x27 # b @ [0x27]"
| "render (Double b) = 0x22 # b @ [0x22]"
| "render (Block b) = 0x2F # 0x2A # b @ [0x2A, 0x2F]"
| "render (Line b) = 0x2D # 0x2D # b"

fun outsidePart :: "piece \<Rightarrow> jsstr" where
  "outsidePart (Text t) = t"
| "outsidePart _ = []"

definition renderAll :: "piece list \<Rightarrow> jsstr" where
  "renderAll ps = concat (map render ps)"

definition joined :: "piece list \<Rightarrow> jsstr" where
  "joined ps = concat (map outsidePart ps)"

text \<open>The outside texts with a gap of one space where a region stands.\<close>

fun gapPart :: "piece \<Rightarrow> jsstr" where
  "gapPart (Text t) = t"
| "gapPart _ = [0x20]"

definition gapped :: "piece list \<Rightarrow> jsstr" where
  "gapped ps = concat (map gapPart ps)"

text \<open>
  What may stand between two quotes \<open>q\<close>: units other than the quote and the backslash,
  and a backslash followed by a unit that is no line terminator. What may stand inside
  a block comment: anything without \<open>*/\<close>. \<open>adjacent a b s\<close> holds when \<open>a\<close> stands
  right before \<open>b\<close> somewhere in \<open>s\<close>.
\<close>

fun quotedBody :: "jschar \<Rightarrow> jsstr \<Rightarrow> bool" where
  "quotedBody q [] = True"
| "quotedBody q [c] = (c \<noteq> q \<and> c \<noteq> 0x5C)"
| "quotedBody q (c # d # ds) =
     (if c = 0x5C then \<not> isLineTerminator d \<and> quotedBody q ds
      else c \<noteq> q \<and> quotedBody q (d # ds))"

fun adjacent :: "jschar \<Rightarrow> jschar \<Rightarrow> jsstr \<Rightarrow> bool" where
  "adjacent a b (c # d # ds) = ((c = a \<and> d = b) \<or> adjacent a b (d # ds))"
| "adjacent a b _ = False"

definition blockBody :: "jsstr \<Rightarrow> bool" where
  "blockBody b = (\<not> adjacent 0x2A 0x2F b)"

text \<open>
  The pieces on which the regions keep clear of each other. An outside text holds no
  quote, no \<open>/*\<close> and no \<open>--\<close>, and when a piece follows it, it does not end with a
  slash or a hyphen (which could open a comment together with what follows once a
  region between them is gone). A double-quoted identifier holds no apostrophe; a
  comment holds no quote of either kind; a line comment holds no \<open>/*\<close> and no line
  feed, and is the last piece or is followed by an outside text that starts with a
  line feed.
\<close>

definition plainText :: "jsstr \<Rightarrow> bool" where
  "plainText t =
     (0x27 \<notin> set t \<and> 0x22 \<notin> set t \<and> \<not> adjacent 0x2F 0x2A t \<and> \<not> adjacent 0x2D 0x2D t)"

definition endsOpen :: "jsstr \<Rightarrow> bool" where
  "endsOpen t = (t \<noteq> [] \<and> (last t = 0x2F \<or> last t = 0x2D))"

fun lineEnds :: "piece list \<Rightarrow> bool" where
  "lineEnds [] = True"
| "lineEnds (Text (c # t) # ps) = (c = 0x0A)"
| "lineEnds _ = False"

fun separated :: "piece list \<Rightarrow> bool" where
  "separated [] = True"
| "separated (Text t # ps) = (plainText t \<and> (ps = [] \<or> \<not> endsOpen t) \<and> separated ps)"
| "separated (Single b # ps) = (quotedBody 0x27 b \<and> separated ps)"
| "separated (Double b # ps) = (quotedBody 0x22 b \<and> 0x27 \<notin> set b \<and> separated ps)"
| "separated (Block b # ps) =
     (blockBody b \<and> 0x27 \<notin> set b \<and> 0x22 \<notin> set b \<and> separated ps)"
| "separated (Line b # ps) =
     (0x0A \<notin> set b \<and> 0x27 \<notin> set b \<and> 0x22 \<notin> set b \<and> \<not> adjacent 0x2F 0x2A b \<and>
      lineEnds ps \<and> separated ps)"

section \<open>Result formatting (format.ts)\<close>

definition MAX_CELL_WIDTH :: nat where
  "MAX_CELL_WIDTH = 200"

text \<open>
  A cell value, as \<open>sanitizeCell\<close> tells values apart: \<open>null\<close>, \<open>undefined\<close>, a
  \<open>Buffer\<close> or \<open>Uint8Array\<close> with its bytes, any other object given by what
  \<open>JSON.stringify\<close> returns for it (\<open>None\<close> when it throws), a function (its
  \<open>typeof\<close> is not \<open>"object"\<close>) given by its source text \<open>String(value)\<close>, and a
  primitive (string, number, boolean, bigint) given by its string form \<open>String(value)\<close>.
\<close>

datatype cell =
    Null
  | Undefined
  | Blob "8 word list"
  | Object "jsstr option"
  | Function jsstr
  | Prim jsstr

text \<open>The decimal digits of a number in a template literal.\<close>

fun showNat :: "nat \<Rightarrow> jsstr" where
  "showNat n = (if n < 10 then [0x30 + of_nat n] else showNat (n div 10) @ [0x30 + of_nat (n mod 10)])"

definition showInt :: "int \<Rightarrow> jsstr" where
  "showInt i = (if i < 0 then 0x2D # showNat (nat (- i)) else showNat (nat i))"

fun sanitizeCell :: "cell \<Rightarrow> jsstr" where
  "sanitizeCell Null = js ''NULL''"
| "sanitizeCell Undefined = js ''NULL''"
| "sanitizeCell (Blob bytes) = js ''[BLOB '' @ showNat (length bytes) @ js '' bytes]''"
| "sanitizeCell (Object json) = (case json of Some s \<Rightarrow> s | None \<Rightarrow> js ''[Object]'')"
| "sanitizeCell (Function str) =
     (if length str > MAX_CELL_WIDTH then take (MAX_CELL_WIDTH - 3) str @ js ''...'' else str)"
| "sanitizeCell (Prim str) =
     (if length str > MAX_CELL_WIDTH then take (MAX_CELL_WIDTH - 3) str @ js ''...'' else str)"

text \<open>
  A row is a JavaScript object: its own enumerable properties in the order of their
  creation, each key once, and its prototype (\<open>None\<close> for \<open>null\<close>), itself an object.
  \<open>Object.keys\<close> reads the own properties only: it lists the keys that are array
  indices (canonical decimal numerals below \<open>2^32 - 1\<close>) first, in ascending numeric
  order, and then the other keys in the order of their creation. \<open>row[c]\<close> reads the
  own property when there is one and goes up the prototype chain otherwise; it is
  \<open>undefined\<close> when no object of the chain has the property.
\<close>

datatype jsobject = JsObject (ownProperties: "(jsstr \<times> cell) list") (prototypeOf: "jsobject option")

type_synonym row = jsobject

definition isDigit :: "jschar \<Rightarrow> bool" where
  "isDigit c = (0x30 \<le> c \<and> c \<le> 0x39)"

definition digitsValue :: "jsstr \<Rightarrow> int" where
  "digitsValue s = foldl (\<lambda>n c. 10 * n + uint (c - 0x30)) 0 s"

definition isArrayIndex :: "jsstr \<Rightarrow> bool" where
  "isArrayIndex s =
     (s \<noteq> [] \<and> list_all isDigit s \<and> (length s = 1 \<or> hd s \<noteq> 0x30) \<and>
      digitsValue s < 4294967295)"

definition objectKeys :: "(jsstr \<times> 'v) list \<Rightarrow> jsstr list" where
  "objectKeys obj =
     sort_key digitsValue (filter isArrayIndex (map fst obj)) @
     filter (\<lambda>k. \<not> isArrayIndex k) (map fst obj)"

fun getProp :: "jsobject \<Rightarrow> jsstr \<Rightarrow> cell" where
  "getProp (JsObject own proto) k =
     (case map_of own k of
        Some v \<Rightarrow> v
      | None \<Rightarrow> (case proto of None \<Rightarrow> Undefined | Some p \<Rightarrow> getProp p k))"

text \<open>
  \<open>Object.prototype\<close>, the prototype of an object made by an object literal, as
  \<open>row[c]\<close> sees it: its methods, each a native function whose source text is
  \<open>function name() { [native code] }\<close>, and the accessor \<open>__proto__\<close>, which gives the
  prototype itself, an object with no enumerable property.
\<close>

definition nativeFunction :: "jsstr \<Rightarrow> cell" where
  "nativeFunction n = Function (js ''function '' @ n @ js ''() { [native code] }'')"

definition objectPrototype :: jsobject where
  "objectPrototype =
     JsObject
       ((js ''constructor'', nativeFunction (js ''Object'')) #
        map (\<lambda>n. (n, nativeFunction n))
          [js ''__defineGetter__'', js ''__defineSetter__'', js ''hasOwnProperty'',
           js ''__lookupGetter__'', js ''__lookupSetter__'', js ''isPrototypeOf'',
           js ''propertyIsEnumerable'', js ''toString'', js ''valueOf'', js ''toLocaleString''] @
        [(js ''__proto__'', Object (Some (js ''{}'')))])
       None"

definition plainObject :: "(jsstr \<times> cell) list \<Rightarrow> jsobject" where
  "plainObject props = JsObject props (Some objectPrototype)"

text \<open>\<open>Array.prototype.join\<close> and \<open>String.prototype.padEnd\<close>.\<close>

fun join :: "jsstr \<Rightarrow> jsstr list \<Rightarrow> jsstr" where
  "join sep [] = []"
| "join sep [x] = x"
| "join sep (x # y # ys) = x @ sep @ join sep (y # ys)"

definition padEnd :: "jsstr \<Rightarrow> nat \<Rightarrow> jsstr" where
  "padEnd s n = s @ replicate (n - length s) 0x20"

definition csvEscape :: "jsstr \<Rightarrow> jsstr" where
  "csvEscape val =
     (if 0x2C \<in> set val \<or> 0x22 \<in> set val \<or> 0x0A \<in> set val
      then [0x22] @ concat (map (\<lambda>c. if c = 0x22 then [0x22, 0x22] else [c]) val) @ [0x22]
      else val)"

datatype error = Error jsstr | TypeError

text \<open>
  \<open>formatCsv\<close>. \<open>Object.keys(rows[0])\<close> throws a TypeError on an empty array;
  \<open>formatResults\<close> never passes one.
\<close>

fun formatCsv :: "row list \<Rightarrow> error + jsstr" where
  "formatCsv [] = Inl TypeError"
| "formatCsv (first # rest) =
     (let columns = objectKeys (ownProperties first);
          header = join [0x2C] (map csvEscape columns);
          body = map (\<lambda>row. join [0x2C] (map (\<lambda>c. csvEscape (sanitizeCell (getProp row c))) columns))
                   (first # rest)
      in Inr (join [0x0A] (header # body)))"

record Column =
  name :: jsstr
  width :: nat

text \<open>
  The inner loop of \<open>formatTable\<close> over the columns of one row: each cell is rendered
  and the width of its column grows to the cell's length, capped at \<open>MAX_CELL_WIDTH\<close>.
\<close>

fun fillRow :: "row \<Rightarrow> Column list \<Rightarrow> Column list \<times> jsstr list" where
  "fillRow r [] = ([], [])"
| "fillRow r (c # cs) =
     (let cell = sanitizeCell (getProp r (name c));
          c' = c\<lparr>width := min (max (width c) (length cell)) MAX_CELL_WIDTH\<rparr>;
          (cs', cells) = fillRow r cs
      in (c' # cs', cell # cells))"

text \<open>The outer loop over the rows, which builds \<open>cellGrid\<close>.\<close>

fun fillGrid :: "Column list \<Rightarrow> row list \<Rightarrow> Column list \<times> jsstr list list" where
  "fillGrid columns [] = (columns, [])"
| "fillGrid columns (r # rs) =
     (let (columns', cells) = fillRow r columns;
          (columns'', grid) = fillGrid columns' rs
      in (columns'', cells # grid))"

definition rowsCaption :: "nat \<Rightarrow> int option \<Rightarrow> jsstr" where
  "rowsCaption n totalAvailable =
     (case totalAvailable of
        Some available \<Rightarrow>
          if available > int n
          then [0x0A] @ js ''(showing '' @ showNat n @ js '' of '' @ showInt available @ js '' rows)''
          else [0x0A] @ js ''('' @ showNat n @ js '' row'' @ (if n = 1 then [] else js ''s'') @ js '')''
      | None \<Rightarrow>
          [0x0A] @ js ''('' @ showNat n @ js '' row'' @ (if n = 1 then [] else js ''s'') @ js '')'')"

fun formatTable :: "row list \<Rightarrow> int option \<Rightarrow> error + jsstr" where
  "formatTable [] totalAvailable = Inl TypeError"
| "formatTable (first # rest) totalAvailable =
     (let columns0 = map (\<lambda>n. \<lparr>name = n, width = length n\<rparr>) (objectKeys (ownProperties first));
          (columns, cellGrid) = fillGrid columns0 (first # rest);
          header = join (js '' | '') (map (\<lambda>c. padEnd (name c) (width c)) columns);
          sep = join [0x2500, 0x253C, 0x2500] (map (\<lambda>c. replicate (width c) 0x2500) columns);
          body = map (\<lambda>cells. join (js '' | '')
                   (map (\<lambda>(cell, c). padEnd cell (width c)) (zip cells columns))) cellGrid
      in Inr (join [0x0A]
                (header # sep # body @ [rowsCaption (length (first # rest)) totalAvailable])))"

text \<open>
  The width of a column, in the words of the specification: the widest of the header and
  the cells of the column, bounded by the maximum width.
\<close>

definition columnWidth :: "row list \<Rightarrow> jsstr \<Rightarrow> nat" where
  "columnWidth rows c =
     min (Max (set (length c # map (\<lambda>r. length (sanitizeCell (getProp r c))) rows)))
       MAX_CELL_WIDTH"

datatype OutputFormat = Table | Json | Csv

text \<open>
  \<open>formatResults\<close>. The JSON encoding is \<open>JSON.stringify\<close> of the sanitized rows; it is
  a parameter here.
\<close>

definition formatResults ::
  "(row list \<Rightarrow> jsstr) \<Rightarrow> row list \<Rightarrow> OutputFormat \<Rightarrow> int option \<Rightarrow> error + jsstr" where
  "formatResults jsonRows rows format totalAvailable =
     (if length rows = 0 then Inr (js ''No results.'')
      else case format of
        Json \<Rightarrow> Inr (jsonRows rows)
      | Csv \<Rightarrow> formatCsv rows
      | Table \<Rightarrow> formatTable rows totalAvailable)"

section \<open>Configuration (config.ts) and policy\<close>

text \<open>
  JavaScript numbers are modelled as integers: row limits, row counts and timeouts are
  counts. Fractions, \<open>NaN\<close> and the infinities are outside the model.
\<close>

record ConnectionConfig =
  driver :: jsstr
  path :: "jsstr option"
  connectionString :: "jsstr option"
  readOnly :: "bool option"

record DbQueryConfig =
  connections :: "(jsstr \<times> ConnectionConfig) list"
  defaultConnection :: jsstr
  maxRows :: int
  queryTimeout :: int
  allowMutations :: bool

text \<open>
  The raw plugin configuration: every key may be missing (\<open>??\<close> treats \<open>null\<close> and
  \<open>undefined\<close> alike). An object is an association list in the order of creation of
  its keys.
\<close>

record RawConfig =
  raw_connections :: "(jsstr \<times> ConnectionConfig) list option"
  raw_defaultConnection :: "jsstr option"
  raw_maxRows :: "int option"
  raw_queryTimeout :: "int option"
  raw_allowMutations :: "bool option"

definition DEFAULTS :: DbQueryConfig where
  "DEFAULTS =
     \<lparr>connections = [], defaultConnection = [], maxRows = 1000, queryTimeout = 30000,
      allowMutations = False\<rparr>"

definition orElse :: "'a option \<Rightarrow> 'a \<Rightarrow> 'a" where
  "orElse v d = (case v of None \<Rightarrow> d | Some x \<Rightarrow> x)"

definition resolveConfig :: "RawConfig option \<Rightarrow> DbQueryConfig" where
  "resolveConfig raw =
     (case raw of
        None \<Rightarrow> DEFAULTS
      | Some r \<Rightarrow>
          \<lparr>connections = orElse (raw_connections r) [],
           defaultConnection =
             (case raw_defaultConnection r of
                Some d \<Rightarrow> d
              | None \<Rightarrow>
                  (case objectKeys (orElse (raw_connections r) []) of
                     [] \<Rightarrow> []
                   | k # _ \<Rightarrow> k)),
           maxRows = min (orElse (raw_maxRows r) 1000) 10000,
           queryTimeout = orElse (raw_queryTimeout r) 30000,
           allowMutations = orElse (raw_allowMutations r) False\<rparr>)"

definition isReadOnly :: "bool option \<Rightarrow> bool \<Rightarrow> bool" where
  "isReadOnly connectionReadOnly globalAllowMutations =
     (case connectionReadOnly of Some b \<Rightarrow> b | None \<Rightarrow> \<not> globalAllowMutations)"

section \<open>The gateway (index.ts)\<close>

text \<open>
  \<open>resolveConnectionName\<close>. A name is used when it is given and not empty (\<open>if (name)\<close>);
  the same test is made on \<open>cfg.defaultConnection\<close>.
\<close>

definition resolveConnectionName :: "DbQueryConfig \<Rightarrow> jsstr option \<Rightarrow> error + jsstr" where
  "resolveConnectionName cfg given =
     (if given \<noteq> None \<and> given \<noteq> Some [] then Inr (the given)
      else if defaultConnection cfg \<noteq> [] then Inr (defaultConnection cfg)
      else
        (case objectKeys (connections cfg) of
           [k] \<Rightarrow> Inr k
         | [] \<Rightarrow> Inl (Error (js ''No database connections configured.''))
         | keys \<Rightarrow>
             Inl (Error (js ''Multiple connections available ('' @ join (js '', '') keys @
                         js ''). Specify which one to use.''))))"

text \<open>
  The row limit the \<open>db_query\<close> tool passes to the driver:
  \<open>Math.min((params.limit as number) ?? 100, cfg.maxRows)\<close>.
\<close>

definition queryLimit :: "int option \<Rightarrow> DbQueryConfig \<Rightarrow> int" where
  "queryLimit limit cfg = min (orElse limit 100) (maxRows cfg)"

section \<open>The drivers (drivers/*.ts)\<close>

record QueryResult =
  rows :: "row list"
  rowCount :: int
  totalAvailable :: "int option"

fun includesText :: "jsstr \<Rightarrow> jsstr \<Rightarrow> bool" where
  "includesText [] p = (p = [])"
| "includesText (c # cs) p = (startsWith (c # cs) p \<or> includesText cs p)"

text \<open>\<open>rows.slice(0, limit)\<close>: a negative end counts from the end of the array.\<close>

definition slice0 :: "'a list \<Rightarrow> int \<Rightarrow> 'a list" where
  "slice0 xs e = (if e < 0 then take (nat (int (length xs) + e)) xs else take (nat e) xs)"

text \<open>
  The SQLite handle \<open>this.db\<close>: what \<open>prepare(sql).all()\<close> and \<open>prepare(sql).run()\<close>
  answer for a statement text (the rows; the \<open>changes\<close> count, which may be missing),
  or the error they throw. \<open>String.prototype.toUpperCase\<close> is a parameter of the
  drivers: outside ASCII it is Unicode's mapping. The warning the SQLite driver logs
  for a positive timeout changes no result and is left out.
\<close>

record SqliteDb =
  stmt_all :: "jsstr \<Rightarrow> error + row list"
  stmt_run :: "jsstr \<Rightarrow> error + int option"

definition SqliteDriver_query ::
  "(jsstr \<Rightarrow> jsstr) \<Rightarrow> SqliteDb option \<Rightarrow> jsstr \<Rightarrow> int \<Rightarrow> int \<Rightarrow> error + QueryResult" where
  "SqliteDriver_query toUpperCase db sql limit timeoutMs =
     (case db of
        None \<Rightarrow> Inl (Error (js ''SQLite database not connected. Call connect() first.''))
      | Some handle \<Rightarrow>
          if length sql > 10000
          then Inl (Error (js ''Query too long '' @ [0x2014] @
                 js '' SQLite queries are limited to 10,000 characters as a DoS safeguard.''))
          else
            let upper = toUpperCase (trim sql);
                wrappedSql =
                  (if startsWith upper (js ''SELECT'') \<and> \<not> includesText upper (js ''LIMIT'')
                   then stripTrailingSemicolon sql @ js '' LIMIT '' @ showInt (limit + 1)
                   else sql)
            in if startsWith upper (js ''SELECT'') \<or> startsWith upper (js ''PRAGMA'') \<or>
                  startsWith upper (js ''EXPLAIN'') \<or> startsWith upper (js ''WITH'')
               then
                 (case stmt_all handle wrappedSql of
                    Inl e \<Rightarrow> Inl e
                  | Inr fetched \<Rightarrow>
                      let limited = slice0 fetched limit
                      in Inr \<lparr>rows = limited, rowCount = int (length limited),
                              totalAvailable = Some (int (length fetched))\<rparr>)
               else
                 (case stmt_run handle wrappedSql of
                    Inl e \<Rightarrow> Inl e
                  | Inr changes \<Rightarrow>
                      Inr \<lparr>rows = [], rowCount = 0, totalAvailable = Some (orElse changes 0)\<rparr>))"

text \<open>
  The MySQL pool: \<open>pool.query({sql, timeout})\<close> answers with an array of rows or with
  a result header whose \<open>affectedRows\<close> may be missing.
\<close>

datatype MysqlAnswer = RowArray "row list" | ResultHeader "int option"

definition MysqlDriver_query ::
  "(jsstr \<Rightarrow> jsstr) \<Rightarrow> (jsstr \<Rightarrow> int \<Rightarrow> error + MysqlAnswer) option \<Rightarrow> jsstr \<Rightarrow> int \<Rightarrow> int \<Rightarrow>
   error + QueryResult" where
  "MysqlDriver_query toUpperCase pool sql limit timeoutMs =
     (case pool of
        None \<Rightarrow> Inl (Error (js ''MySQL not connected. Call connect() first.''))
      | Some pool_query \<Rightarrow>
          let upper = toUpperCase (trim sql);
              wrappedSql =
                (if startsWith upper (js ''SELECT'') \<or> startsWith upper (js ''WITH'')
                 then js ''SELECT * FROM ('' @ stripTrailingSemicolon sql @ js '') AS _q LIMIT '' @
                      showInt limit
                 else sql)
          in case pool_query wrappedSql timeoutMs of
               Inl e \<Rightarrow> Inl e
             | Inr (ResultHeader affectedRows) \<Rightarrow>
                 Inr \<lparr>rows = [], rowCount = orElse affectedRows 0, totalAvailable = None\<rparr>
             | Inr (RowArray fetched) \<Rightarrow>
                 Inr \<lparr>rows = slice0 fetched limit, rowCount = int (length fetched),
                      totalAvailable = None\<rparr>)"

text \<open>
  The PostgreSQL pool: \<open>pool.query({text, statement_timeout})\<close> answers with a result
  whose \<open>rows\<close> and \<open>rowCount\<close> may both be missing.
\<close>

record PgResult =
  pg_rows :: "row list option"
  pg_rowCount :: "int option"

definition PostgresDriver_query ::
  "(jsstr \<Rightarrow> jsstr) \<Rightarrow> (jsstr \<Rightarrow> int \<Rightarrow> error + PgResult) option \<Rightarrow> jsstr \<Rightarrow> int \<Rightarrow> int \<Rightarrow>
   error + QueryResult" where
  "PostgresDriver_query toUpperCase pool sql limit timeoutMs =
     (case pool of
        None \<Rightarrow> Inl (Error (js ''PostgreSQL not connected. Call connect() first.''))
      | Some pool_query \<Rightarrow>
          let upper = toUpperCase (trim sql);
              wrappedSql =
                (if startsWith upper (js ''SELECT'') \<and> \<not> includesText upper (js ''LIMIT'')
                 then stripTrailingSemicolon sql @ js '' LIMIT '' @ showInt limit
                 else sql)
          in case pool_query wrappedSql timeoutMs of
               Inl e \<Rightarrow> Inl e
             | Inr result \<Rightarrow>
                 (case pg_rows result of
                    None \<Rightarrow>
                      Inr \<lparr>rows = [], rowCount = orElse (pg_rowCount result) 0,
                           totalAvailable = None\<rparr>
                  | Some fetched \<Rightarrow>
                      Inr \<lparr>rows = slice0 fetched limit, rowCount = int (length fetched),
                           totalAvailable = pg_rowCount result\<rparr>))"

text \<open>
  \<open>driver.query\<close> on the \<open>DatabaseDriver\<close> interface: the three implementations, each
  with its handle (\<open>None\<close> before \<open>connect\<close>).
\<close>

datatype DatabaseDriver =
    SqliteDriver "SqliteDb option"
  | PostgresDriver "(jsstr \<Rightarrow> int \<Rightarrow> error + PgResult) option"
  | MysqlDriver "(jsstr \<Rightarrow> int \<Rightarrow> error + MysqlAnswer) option"

fun driver_query ::
  "(jsstr \<Rightarrow> jsstr) \<Rightarrow> DatabaseDriver \<Rightarrow> jsstr \<Rightarrow> int \<Rightarrow> int \<Rightarrow> error + QueryResult" where
  "driver_query up (SqliteDriver db) sql limit timeoutMs = SqliteDriver_query up db sql limit timeoutMs"
| "driver_query up (PostgresDriver pool) sql limit timeoutMs =
     PostgresDriver_query up pool sql limit timeoutMs"
| "driver_query up (MysqlDriver pool) sql limit timeoutMs = MysqlDriver_query up pool sql limit timeoutMs"

text \<open>The upper-casing of ASCII texts, for the concrete inputs below.\<close>

definition asciiUpperCase :: "jsstr \<Rightarrow> jsstr" where
  "asciiUpperCase s = map canonicalize s"

section \<open>The connection registry (index.ts)\<close>

text \<open>
  A driver object: \<open>instanceId\<close> is its identity (the number of driver objects
  constructed before it), the rest is what its constructor was given.
\<close>

datatype DriverKind = SqliteKind | PostgresKind | MysqlKind

record DriverInstance =
  instanceId :: nat
  driverKind :: DriverKind
  driverTarget :: jsstr

text \<open>
  What lies outside the registry: \<open>resolvePath\<close>, which the SQLite constructor calls
  and which throws on a missing environment variable, and the outcome of
  \<open>driver.connect()\<close> for a driver object (\<open>None\<close> when it succeeds).
\<close>

record Outside =
  resolvePath :: "jsstr \<Rightarrow> error + jsstr"
  connect :: "DriverInstance \<Rightarrow> error option"

text \<open>
  The state: the map \<open>drivers\<close> (a JavaScript \<open>Map\<close>, its entries in insertion
  order) and the number of driver objects constructed so far.
\<close>

record Registry =
  drivers :: "(jsstr \<times> DriverInstance) list"
  constructed :: nat

fun mapSet :: "'k \<Rightarrow> 'v \<Rightarrow> ('k \<times> 'v) list \<Rightarrow> ('k \<times> 'v) list" where
  "mapSet k v [] = [(k, v)]"
| "mapSet k v ((k', v') # m) = (if k = k' then (k, v) # m else (k', v') # mapSet k v m)"

definition createDriver :: "Outside \<Rightarrow> ConnectionConfig \<Rightarrow> nat \<Rightarrow> error + DriverInstance" where
  "createDriver out connCfg fresh =
     (if driver connCfg = js ''sqlite'' then
        (case resolvePath out (orElse (path connCfg) (js '':memory:'')) of
           Inl e \<Rightarrow> Inl e
         | Inr p \<Rightarrow> Inr \<lparr>instanceId = fresh, driverKind = SqliteKind, driverTarget = p\<rparr>)
      else if driver connCfg = js ''postgres'' then
        Inr \<lparr>instanceId = fresh, driverKind = PostgresKind,
             driverTarget = orElse (connectionString connCfg) []\<rparr>
      else if driver connCfg = js ''mysql'' then
        Inr \<lparr>instanceId = fresh, driverKind = MysqlKind,
             driverTarget = orElse (connectionString connCfg) []\<rparr>
      else
        Inl (Error (js ''Unknown driver: '' @ driver connCfg @
                    js ''. Supported: sqlite, postgres, mysql'')))"

definition notFound :: "DbQueryConfig \<Rightarrow> jsstr \<Rightarrow> error" where
  "notFound cfg connectionName =
     (let available = objectKeys (connections cfg)
      in if length available > 0
         then Error (js ''Connection \"'' @ connectionName @ js ''\" not found. Available: '' @
                     join (js '', '') available)
         else Error (js ''No database connections configured. Add connections to the db-query plugin config.''))"

text \<open>
  \<open>getDriver\<close>, one call run from its start to its end with no other call in between.
  \<open>cfg.connections[connectionName]\<close> is read on the object's own keys.
\<close>

definition getDriver ::
  "Outside \<Rightarrow> DbQueryConfig \<Rightarrow> jsstr \<Rightarrow> Registry \<Rightarrow> (error + DriverInstance) \<times> Registry" where
  "getDriver out cfg connectionName st =
     (case map_of (drivers st) connectionName of
        Some existing \<Rightarrow> (Inr existing, st)
      | None \<Rightarrow>
          (case map_of (connections cfg) connectionName of
             None \<Rightarrow> (Inl (notFound cfg connectionName), st)
           | Some connCfg \<Rightarrow>
               (case createDriver out connCfg (constructed st) of
                  Inl e \<Rightarrow> (Inl e, st)
                | Inr d \<Rightarrow>
                    (case connect out d of
                       Some e \<Rightarrow> (Inl e, st\<lparr>constructed := constructed st + 1\<rparr>)
                     | None \<Rightarrow>
                         (Inr d, \<lparr>drivers = mapSet connectionName d (drivers st),
                                  constructed = constructed st + 1\<rparr>)))))"

text \<open>
  Calls of \<open>getDriver\<close> made one after the other, each one awaited before the next is
  made: the results in the order of the calls, and the state after the last.
\<close>

fun getDriverSeq ::
  "Outside \<Rightarrow> DbQueryConfig \<Rightarrow> jsstr list \<Rightarrow> Registry \<Rightarrow>
   (error + DriverInstance) list \<times> Registry" where
  "getDriverSeq out cfg [] st = ([], st)"
| "getDriverSeq out cfg (connectionName # later) st =
     (let (result, st') = getDriver out cfg connectionName st;
          (results, st'') = getDriverSeq out cfg later st'
      in (result # results, st''))"

text \<open>
  \<open>getDriver\<close> is an \<open>async\<close> function: it runs to its first \<open>await\<close>, and each later
  part runs when the awaited promise has settled; between two parts, parts of other
  calls may run. A call is at one of these points: not yet started; suspended at
  \<open>await createDriver(connCfg)\<close> with what \<open>createDriver\<close> gives; suspended at
  \<open>await driver.connect()\<close> with what \<open>connect\<close> gives; returned; thrown.
\<close>

datatype GetDriverCall =
    Called jsstr
  | AwaitCreateDriver jsstr "error + DriverInstance"
  | AwaitConnect jsstr DriverInstance "error option"
  | Returned DriverInstance
  | Thrown error

fun stepCall :: "Outside \<Rightarrow> DbQueryConfig \<Rightarrow> Registry \<Rightarrow> GetDriverCall \<Rightarrow> Registry \<times> GetDriverCall" where
  "stepCall out cfg st (Called connectionName) =
     (case map_of (drivers st) connectionName of
        Some existing \<Rightarrow> (st, Returned existing)
      | None \<Rightarrow>
          (case map_of (connections cfg) connectionName of
             None \<Rightarrow> (st, Thrown (notFound cfg connectionName))
           | Some connCfg \<Rightarrow>
               (case createDriver out connCfg (constructed st) of
                  Inl e \<Rightarrow> (st, AwaitCreateDriver connectionName (Inl e))
                | Inr d \<Rightarrow>
                    (st\<lparr>constructed := constructed st + 1\<rparr>,
                     AwaitCreateDriver connectionName (Inr d)))))"
| "stepCall out cfg st (AwaitCreateDriver connectionName (Inl e)) = (st, Thrown e)"
| "stepCall out cfg st (AwaitCreateDriver connectionName (Inr d)) =
     (st, AwaitConnect connectionName d (connect out d))"
| "stepCall out cfg st (AwaitConnect connectionName d (Some e)) = (st, Thrown e)"
| "stepCall out cfg st (AwaitConnect connectionName d None) =
     (st\<lparr>drivers := mapSet connectionName d (drivers st)\<rparr>, Returned d)"
| "stepCall out cfg st (Returned d) = (st, Returned d)"
| "stepCall out cfg st (Thrown e) = (st, Thrown e)"

text \<open>
  A schedule names, step by step, the call that runs its next part.
\<close>

fun runSchedule ::
  "Outside \<Rightarrow> DbQueryConfig \<Rightarrow> nat list \<Rightarrow> Registry \<times> GetDriverCall list \<Rightarrow>
   Registry \<times> GetDriverCall list" where
  "runSchedule out cfg [] s = s"
| "runSchedule out cfg (i # sched) (st, calls) =
     (if i < length calls
      then (let (st', c') = stepCall out cfg st (calls ! i)
            in runSchedule out cfg sched (st', calls[i := c']))
      else runSchedule out cfg sched (st, calls))"

text \<open>The point a call is at when it has ended with a given result.\<close>

fun outcome :: "error + DriverInstance \<Rightarrow> GetDriverCall" where
  "outcome (Inl e) = Thrown e"
| "outcome (Inr d) = Returned d"

section \<open>Concrete inputs\<close>

text \<open>
  A table \<open>t\<close> of three rows with one column \<open>a\<close>, and for each driver a database that
  holds it and answers the statements used below: the statement itself with all three
  rows, a \<open>LIMIT k\<close> with the first \<open>k\<close> rows.
\<close>

definition tableRows :: "row list" where
  "tableRows =
     [plainObject [(js ''a'', Prim (js ''1''))], plainObject [(js ''a'', Prim (js ''2''))],
      plainObject [(js ''a'', Prim (js ''3''))]]"

definition unknownStatement :: error where
  "unknownStatement = Error (js ''unknown statement'')"

definition tableDb :: SqliteDb where
  "tableDb =
     \<lparr>stmt_all = (\<lambda>sql.
        if sql = js ''SELECT a FROM t'' \<or> sql = js ''SELECT a FROM t LIMIT 3''
        then Inr tableRows else Inl unknownStatement),
      stmt_run = (\<lambda>sql. Inl unknownStatement)\<rparr>"

definition tableMysqlPool :: "jsstr \<Rightarrow> int \<Rightarrow> error + MysqlAnswer" where
  "tableMysqlPool sql timeoutMs =
     (if sql = js ''SELECT * FROM (SELECT a FROM t) AS _q LIMIT 2''
      then Inr (RowArray (take 2 tableRows)) else Inl unknownStatement)"

definition tablePgPool :: "jsstr \<Rightarrow> int \<Rightarrow> error + PgResult" where
  "tablePgPool sql timeoutMs =
     (if sql = js ''SELECT a FROM t LIMIT 2''
      then Inr \<lparr>pg_rows = Some (take 2 tableRows), pg_rowCount = Some 2\<rparr>
      else if sql = js ''TABLE t''
      then Inr \<lparr>pg_rows = Some tableRows, pg_rowCount = Some 3\<rparr>
      else Inl unknownStatement)"

text \<open>A configuration of two connections that names no default connection.\<close>

definition memoryConnection :: ConnectionConfig where
  "memoryConnection =
     \<lparr>driver = js ''sqlite'', path = None, connectionString = None, readOnly = None\<rparr>"

definition twoConnections :: RawConfig where
  "twoConnections =
     \<lparr>raw_connections = Some [(js ''a'', memoryConnection), (js ''b'', memoryConnection)],
      raw_defaultConnection = None, raw_maxRows = None, raw_queryTimeout = None,
      raw_allowMutations = None\<rparr>"

text \<open>
  One configured connection, a world in which every \<open>connect\<close> fails and one in which
  every \<open>connect\<close> succeeds, and the driver objects \<open>createDriver\<close> makes there.
\<close>

definition oneConnection :: DbQueryConfig where
  "oneConnection = DEFAULTS\<lparr>connections := [(js ''main'', memoryConnection)]\<rparr>"

definition failingOutside :: Outside where
  "failingOutside =
     \<lparr>resolvePath = (\<lambda>p. Inr p),
      connect = (\<lambda>d. Some (Error (js ''Failed to open SQLite database'')))\<rparr>"

definition workingOutside :: Outside where
  "workingOutside = \<lparr>resolvePath = (\<lambda>p. Inr p), connect = (\<lambda>d. None)\<rparr>"

definition memoryDriver :: "nat \<Rightarrow> DriverInstance" where
  "memoryDriver i = \<lparr>instanceId = i, driverKind = SqliteKind, driverTarget = js '':memory:''\<rparr>"

section \<open>Properties of the query classifier\<close>

subsection \<open>The trailing terminator\<close>

lemma trim_last: "trim s \<noteq> [] \<Longrightarrow> \<not> isSpace (last (trim s))"
  by (simp add: trim_def last_rev hd_dropWhile)

lemma stripTrailingSemicolon_trimmed:
  "t \<noteq> [] \<Longrightarrow> \<not> isSpace (last t) \<Longrightarrow> stripTrailingSemicolon t = stripOneTerminator t"
proof (induction t)
  case Nil
  then show ?case by simp
next
  case (Cons c cs)
  show ?case
  proof (cases "cs = []")
    case True
    then show ?thesis by (simp add: stripOneTerminator_def)
  next
    case False
    with Cons.prems have sp: "\<not> isSpace (last cs)" by simp
    from False sp have "\<not> list_all isSpace cs"
      using last_in_set [of cs] by (auto simp: list_all_iff)
    with Cons.IH [OF False sp] False show ?thesis
      by (simp add: stripOneTerminator_def)
  qed
qed

text \<open>
  On a trimmed text the regular expression \<open>/;\s*$/\<close> removes exactly a final semicolon.
\<close>

lemma stripTrailingSemicolon_trim:
  "stripTrailingSemicolon (trim s) = stripOneTerminator (trim s)"
proof (cases "trim s = []")
  case True
  then show ?thesis by (simp add: stripOneTerminator_def)
next
  case False
  then show ?thesis
    by (simp add: stripTrailingSemicolon_trimmed trim_last)
qed

lemma scanKeywords_find:
  "scanKeywords kws s =
     (case find (\<lambda>k. testWord k s) kws of
        None \<Rightarrow> \<lparr>allowed = True, reason = None\<rparr>
      | Some k \<Rightarrow> \<lparr>allowed = False, reason = Some (blockedReason k)\<rparr>)"
  by (induction kws) simp_all

lemma validateQuery_single_statement:
  "0x3B \<notin> set (stripOneTerminator (trim query)) \<Longrightarrow>
   validateQuery query False =
     scanKeywords MUTATION_KEYWORDS (stripLiteralsAndComments (trim query))"
  by (simp add: validateQuery_def stripTrailingSemicolon_trim)

subsection \<open>Multiple statements\<close>

text \<open>
  C3. With mutations disabled, a text that still holds a semicolon after one trailing
  terminator has been removed from the trimmed text is denied with the reason
  "multiple statements not allowed". The hypothesis says nothing about keywords and the
  result names none: the denial is the same whatever keywords the text holds, and it is
  returned before the keyword loop is reached.
\<close>

theorem validateQuery_multiple_statements:
  "0x3B \<in> set (stripOneTerminator (trim query)) \<Longrightarrow>
   validateQuery query False =
     \<lparr>allowed = False, reason = Some (js ''multiple statements not allowed'')\<rparr>"
  by (simp add: validateQuery_def stripTrailingSemicolon_trim)

theorem validateQuery_multiple_statements_witness:
  "0x3B \<in> set (stripOneTerminator (trim (js ''SELECT 1; DROP TABLE x''))) \<and>
   validateQuery (js ''SELECT 1; DROP TABLE x'') False =
     \<lparr>allowed = False, reason = Some (js ''multiple statements not allowed'')\<rparr>"
proof -
  have h: "0x3B \<in> set (stripOneTerminator (trim (js ''SELECT 1; DROP TABLE x'')))"
    by code_simp
  from validateQuery_multiple_statements [OF h] h show ?thesis by simp
qed

subsection \<open>Whole words\<close>

text \<open>
  The test of \<open>\bKEYWORD\b\<close> with the \<open>i\<close> flag finds exactly the whole-word
  occurrences, for a keyword that is not empty and holds word characters only.
\<close>

lemma canonicalize_word:
  "canonicalize c = canonicalize p \<Longrightarrow> isWordChar p \<Longrightarrow> isWordChar c"
  unfolding canonicalize_def isWordChar_def
  by (auto split: if_splits) unat_arith+

lemma matchLiteral_complete:
  "map canonicalize mid = map canonicalize kw \<Longrightarrow>
   matchLiteral w kw (mid @ rest) = Some (if mid = [] then w else isWordChar (last mid), rest)"
proof (induction kw arbitrary: mid w)
  case Nil
  then show ?case by simp
next
  case (Cons p ps)
  then obtain c cs where mid: "mid = c # cs" by (cases mid) auto
  with Cons.prems have "canonicalize c = canonicalize p" "map canonicalize cs = map canonicalize ps"
    by simp_all
  with Cons.IH [of cs "isWordChar c"] mid show ?case by simp
qed

lemma matchLiteral_sound:
  "matchLiteral w kw s = Some (w', rest) \<Longrightarrow>
   \<exists>mid. s = mid @ rest \<and> map canonicalize mid = map canonicalize kw \<and>
         w' = (if mid = [] then w else isWordChar (last mid))"
proof (induction w kw s rule: matchLiteral.induct)
  case (1 prevW s)
  then show ?case by simp
next
  case (2 prevW p ps)
  then show ?case by simp
next
  case (3 prevW p ps c cs)
  from "3.prems" have eq: "canonicalize c = canonicalize p"
    and m: "matchLiteral (isWordChar c) ps cs = Some (w', rest)"
    by (simp_all split: if_splits)
  from "3.IH" [OF eq m] obtain mid where mid: "cs = mid @ rest"
    "map canonicalize mid = map canonicalize ps"
    "w' = (if mid = [] then isWordChar c else isWordChar (last mid))"
    by blast
  show ?case
  proof (intro exI conjI)
    show "c # cs = (c # mid) @ rest" using mid(1) by simp
    show "map canonicalize (c # mid) = map canonicalize (p # ps)" using eq mid(2) by simp
    show "w' = (if c # mid = [] then prevW else isWordChar (last (c # mid)))"
      using mid(3) by simp
  qed
qed

lemma canonicalize_all_word:
  "map canonicalize mid = map canonicalize kw \<Longrightarrow> list_all isWordChar kw \<Longrightarrow>
   list_all isWordChar mid"
proof (induction kw arbitrary: mid)
  case Nil
  then show ?case by simp
next
  case (Cons p ps)
  from Cons.prems(1) obtain c cs where mid: "mid = c # cs" by (cases mid) simp_all
  with Cons.prems have e: "canonicalize c = canonicalize p"
    and es: "map canonicalize cs = map canonicalize ps"
    and w: "isWordChar p" and ws: "list_all isWordChar ps"
    by simp_all
  from canonicalize_word [OF e w] have c: "isWordChar c" .
  from Cons.IH [OF es ws] have cs: "list_all isWordChar cs" .
  from c cs show ?case unfolding mid by simp
qed

lemma atBoundary_alt: "atBoundary w s = (w \<noteq> (s \<noteq> [] \<and> isWordChar (hd s)))"
  by (cases s) (simp_all add: atBoundary_def)

lemma matchWordHere_iff:
  assumes "kw \<noteq> []" and "list_all isWordChar kw"
  shows "matchWordHere w kw s \<longleftrightarrow>
     (\<not> w \<and> (\<exists>mid post. s = mid @ post \<and> map canonicalize mid = map canonicalize kw \<and>
        (post = [] \<or> \<not> isWordChar (hd post))))"
proof
  assume m: "matchWordHere w kw s"
  then have b: "atBoundary w s" by (simp add: matchWordHere_def)
  from m obtain w' rest where ml: "matchLiteral w kw s = Some (w', rest)"
    by (cases "matchLiteral w kw s") (auto simp: matchWordHere_def)
  with m have b': "atBoundary w' rest" by (simp add: matchWordHere_def)
  from matchLiteral_sound [OF ml] obtain mid where mid: "s = mid @ rest"
    "map canonicalize mid = map canonicalize kw"
    "w' = (if mid = [] then w else isWordChar (last mid))"
    by blast
  from mid(2) assms(1) have ne: "mid \<noteq> []" by auto
  from canonicalize_all_word [OF mid(2) assms(2)] have aw: "list_all isWordChar mid" .
  with ne have hl: "isWordChar (hd mid)" "isWordChar (last mid)"
    by (simp_all add: list_all_iff)
  from ne mid(1) have "s \<noteq> []" "hd s = hd mid" by simp_all
  with b hl(1) have nw: "\<not> w" by (simp add: atBoundary_alt)
  from mid(3) ne hl(2) have "w'" by simp
  with b' have "rest = [] \<or> \<not> isWordChar (hd rest)" by (simp add: atBoundary_alt)
  with nw mid(1,2) show "\<not> w \<and> (\<exists>mid post. s = mid @ post \<and>
        map canonicalize mid = map canonicalize kw \<and> (post = [] \<or> \<not> isWordChar (hd post)))"
    by blast
next
  assume "\<not> w \<and> (\<exists>mid post. s = mid @ post \<and> map canonicalize mid = map canonicalize kw \<and>
        (post = [] \<or> \<not> isWordChar (hd post)))"
  then obtain mid post where w: "\<not> w" and mid: "s = mid @ post"
    "map canonicalize mid = map canonicalize kw" "post = [] \<or> \<not> isWordChar (hd post)"
    by blast
  from mid(2) assms(1) have ne: "mid \<noteq> []" by auto
  from canonicalize_all_word [OF mid(2) assms(2)] have aw: "list_all isWordChar mid" .
  with ne have hl: "isWordChar (hd mid)" "isWordChar (last mid)"
    by (simp_all add: list_all_iff)
  from matchLiteral_complete [OF mid(2), of w post] ne
  have ml: "matchLiteral w kw s = Some (isWordChar (last mid), post)"
    by (simp add: mid(1))
  from ne mid(1) have "s \<noteq> []" "hd s = hd mid" by simp_all
  with w hl(1) have b: "atBoundary w s" by (simp add: atBoundary_alt)
  from hl(2) mid(3) have b': "atBoundary (isWordChar (last mid)) post"
    by (auto simp: atBoundary_alt)
  from b b' ml show "matchWordHere w kw s"
    by (simp add: matchWordHere_def)
qed

lemma testWordFrom_iff:
  assumes "kw \<noteq> []" and "list_all isWordChar kw"
  shows "testWordFrom w kw s \<longleftrightarrow>
     (\<exists>pre mid post. s = pre @ mid @ post \<and> map canonicalize mid = map canonicalize kw \<and>
        (if pre = [] then \<not> w else \<not> isWordChar (last pre)) \<and>
        (post = [] \<or> \<not> isWordChar (hd post)))"
    (is "_ \<longleftrightarrow> ?R w s")
proof (induction s arbitrary: w)
  case Nil
  have "\<not> matchWordHere w kw []"
    using assms(1) by (simp add: matchWordHere_iff [OF assms])
  moreover have "\<not> ?R w []"
    using assms(1) by auto
  ultimately show ?case by simp
next
  case (Cons c cs)
  show ?case
  proof
    assume "testWordFrom w kw (c # cs)"
    then consider "matchWordHere w kw (c # cs)" | "testWordFrom (isWordChar c) kw cs"
      by auto
    then show "?R w (c # cs)"
    proof cases
      case 1
      then obtain mid post where "\<not> w" "c # cs = mid @ post"
        "map canonicalize mid = map canonicalize kw" "post = [] \<or> \<not> isWordChar (hd post)"
        unfolding matchWordHere_iff [OF assms] by blast
      then have "c # cs = [] @ mid @ post \<and> map canonicalize mid = map canonicalize kw \<and>
        (if [] = ([] :: jsstr) then \<not> w else \<not> isWordChar (last [])) \<and>
        (post = [] \<or> \<not> isWordChar (hd post))"
        by simp
      then show ?thesis by blast
    next
      case 2
      then obtain pre mid post where p: "cs = pre @ mid @ post"
        "map canonicalize mid = map canonicalize kw"
        "if pre = [] then \<not> isWordChar c else \<not> isWordChar (last pre)"
        "post = [] \<or> \<not> isWordChar (hd post)"
        unfolding Cons.IH by blast
      then have "c # cs = (c # pre) @ mid @ post \<and> map canonicalize mid = map canonicalize kw \<and>
        (if c # pre = [] then \<not> w else \<not> isWordChar (last (c # pre))) \<and>
        (post = [] \<or> \<not> isWordChar (hd post))"
        by (simp split: if_splits)
      then show ?thesis by blast
    qed
  next
    assume "?R w (c # cs)"
    then obtain pre mid post where p: "c # cs = pre @ mid @ post"
      "map canonicalize mid = map canonicalize kw"
      "if pre = [] then \<not> w else \<not> isWordChar (last pre)"
      "post = [] \<or> \<not> isWordChar (hd post)"
      by blast
    show "testWordFrom w kw (c # cs)"
    proof (cases pre)
      case Nil
      with p have "matchWordHere w kw (c # cs)"
        unfolding matchWordHere_iff [OF assms] by auto
      then show ?thesis by simp
    next
      case (Cons a pre')
      with p(1) have a: "a = c" and cs: "cs = pre' @ mid @ post" by simp_all
      from p(3) Cons a have "if pre' = [] then \<not> isWordChar c else \<not> isWordChar (last pre')"
        by (simp split: if_splits)
      with cs p(2,4) have "?R (isWordChar c) cs" by blast
      then have "testWordFrom (isWordChar c) kw cs"
        unfolding Cons.IH .
      then show ?thesis by simp
    qed
  qed
qed

lemma testWord_containsWord:
  assumes "kw \<noteq> []" and "list_all isWordChar kw"
  shows "testWord kw s = containsWord kw s"
proof -
  have iff: "(if pre = [] then \<not> False else \<not> isWordChar (last pre))
             \<longleftrightarrow> (pre = [] \<or> \<not> isWordChar (last pre))" for pre :: jsstr
    by simp
  show ?thesis
    unfolding testWord_def containsWord_def testWordFrom_iff [OF assms] iff ..
qed

lemma keywords_are_words:
  "list_all (\<lambda>kw. kw \<noteq> [] \<and> list_all isWordChar kw) MUTATION_KEYWORDS"
  by code_simp

lemma testWord_keyword:
  "kw \<in> set MUTATION_KEYWORDS \<Longrightarrow> testWord kw s = containsWord kw s"
  using keywords_are_words by (simp add: list_all_iff testWord_containsWord)

lemma find_keyword:
  "find (\<lambda>k. testWord k s) MUTATION_KEYWORDS = find (\<lambda>k. containsWord k s) MUTATION_KEYWORDS"
  by (rule find_cong) (simp_all add: testWord_keyword)

subsection \<open>What the four passes leave\<close>

text \<open>
  Each pass of \<open>stripLiteralsAndComments\<close> reads the whole text that the pass before
  it has left. A pass steps over a stretch of text that holds none of its openings, and
  drops a region of its own kind.
\<close>

lemma stripQuoted_append: "q \<notin> set t \<Longrightarrow> stripQuoted q (t @ r) = t @ stripQuoted q r"
  by (induction t) auto

lemma skipQuoted_body:
  "quotedBody q b \<Longrightarrow> q \<noteq> 0x5C \<Longrightarrow> skipQuoted q (b @ q # r) = Some r"
proof (induction q b rule: quotedBody.induct)
  case (1 q)
  then show ?case by (cases r) simp_all
next
  case (2 q c)
  then show ?case by (cases r) simp_all
next
  case (3 q c d ds)
  then show ?case by (simp split: if_splits)
qed

lemma stripQuoted_region:
  "quotedBody q b \<Longrightarrow> q \<noteq> 0x5C \<Longrightarrow> stripQuoted q (q # b @ q # r) = stripQuoted q r"
  by (simp add: skipQuoted_body)

lemma skipBlock_body: "\<not> adjacent 0x2A 0x2F b \<Longrightarrow> skipBlock (b @ 0x2A # 0x2F # r) = Some r"
  by (induction "0x2A :: jschar" "0x2F :: jschar" b rule: adjacent.induct) auto

lemma stripBlock_region:
  "blockBody b \<Longrightarrow> stripBlockComments (0x2F # 0x2A # b @ 0x2A # 0x2F # r) = stripBlockComments r"
  by (simp add: skipBlock_body blockBody_def)

lemma stripBlock_append:
  "\<not> adjacent 0x2F 0x2A t \<Longrightarrow> (t \<noteq> [] \<Longrightarrow> last t = 0x2F \<Longrightarrow> r = [] \<or> hd r \<noteq> 0x2A) \<Longrightarrow>
   stripBlockComments (t @ r) = t @ stripBlockComments r"
proof (induction t)
  case Nil
  then show ?case by simp
next
  case (Cons c t)
  show ?case
  proof (cases t)
    case Nil
    with Cons.prems show ?thesis by (cases r) auto
  next
    case (Cons d ds)
    with Cons.prems Cons.IH show ?thesis by auto
  qed
qed

lemma stripLine_append:
  "\<not> adjacent 0x2D 0x2D t \<Longrightarrow> (t \<noteq> [] \<Longrightarrow> last t = 0x2D \<Longrightarrow> r = [] \<or> hd r \<noteq> 0x2D) \<Longrightarrow>
   stripLineComments (t @ r) = t @ stripLineComments r"
proof (induction t)
  case Nil
  then show ?case by simp
next
  case (Cons c t)
  show ?case
  proof (cases t)
    case Nil
    with Cons.prems show ?thesis by (cases r) auto
  next
    case (Cons d ds)
    with Cons.prems Cons.IH show ?thesis by auto
  qed
qed

lemma dropWhile_line: "0x0A \<notin> set b \<Longrightarrow> r = [] \<or> hd r = 0x0A \<Longrightarrow>
  dropWhile (\<lambda>x. x \<noteq> (0x0A :: jschar)) (b @ r) = r"
proof (induction b)
  case Nil
  then show ?case by (cases r) auto
next
  case (Cons c b)
  then show ?case by simp
qed

lemma stripLine_region:
  "0x0A \<notin> set b \<Longrightarrow> r = [] \<or> hd r = 0x0A \<Longrightarrow>
   stripLineComments (0x2D # 0x2D # b @ r) = stripLineComments r"
  by (simp add: dropWhile_line)

text \<open>
  The four passes together, piece by piece: an outside text is kept, and each kind of
  region is dropped provided the earlier passes find no opening of theirs inside it.
\<close>

lemma strip_text:
  assumes "plainText t" and "r = [] \<or> \<not> endsOpen t"
  shows "stripLiteralsAndComments (t @ r) = t @ stripLiteralsAndComments r"
proof -
  let ?r1 = "stripQuoted 0x27 r"
  let ?r2 = "stripQuoted 0x22 ?r1"
  let ?r3 = "stripBlockComments ?r2"
  from assms(1) have q: "0x27 \<notin> set t" "0x22 \<notin> set t"
    and a: "\<not> adjacent 0x2F 0x2A t" "\<not> adjacent 0x2D 0x2D t"
    by (simp_all add: plainText_def)
  from assms(2) have b3: "t \<noteq> [] \<Longrightarrow> last t = 0x2F \<Longrightarrow> ?r2 = [] \<or> hd ?r2 \<noteq> 0x2A"
    by (auto simp: endsOpen_def)
  from assms(2) have b4: "t \<noteq> [] \<Longrightarrow> last t = 0x2D \<Longrightarrow> ?r3 = [] \<or> hd ?r3 \<noteq> 0x2D"
    by (auto simp: endsOpen_def)
  have "stripQuoted 0x22 (stripQuoted 0x27 (t @ r)) = t @ ?r2"
    using q by (simp add: stripQuoted_append)
  moreover have "stripBlockComments (t @ ?r2) = t @ ?r3"
    using a(1) b3 by (rule stripBlock_append)
  moreover have "stripLineComments (t @ ?r3) = t @ stripLineComments ?r3"
    using a(2) b4 by (rule stripLine_append)
  ultimately show ?thesis
    by (simp add: stripLiteralsAndComments_def)
qed

lemma strip_single:
  "quotedBody 0x27 b \<Longrightarrow>
   stripLiteralsAndComments (0x27 # b @ 0x27 # r) = stripLiteralsAndComments r"
  by (simp add: stripLiteralsAndComments_def skipQuoted_body)

lemma strip_double:
  assumes "quotedBody 0x22 b" and "0x27 \<notin> set b"
  shows "stripLiteralsAndComments (0x22 # b @ 0x22 # r) = stripLiteralsAndComments r"
proof -
  let ?t = "0x22 # b @ [0x22 :: jschar]"
  from assms(2) have "0x27 \<notin> set ?t" by simp
  then have "stripQuoted 0x27 (?t @ r) = ?t @ stripQuoted 0x27 r"
    by (rule stripQuoted_append)
  then have "stripQuoted 0x22 (stripQuoted 0x27 (?t @ r)) = stripQuoted 0x22 (?t @ stripQuoted 0x27 r)"
    by (rule arg_cong)
  also have "\<dots> = stripQuoted 0x22 (stripQuoted 0x27 r)"
    using stripQuoted_region [OF assms(1), of "stripQuoted 0x27 r"] by simp
  finally have "stripLiteralsAndComments (?t @ r) = stripLiteralsAndComments r"
    by (simp only: stripLiteralsAndComments_def)
  then show ?thesis by simp
qed

lemma strip_block:
  assumes "blockBody b" and "0x27 \<notin> set b" and "0x22 \<notin> set b"
  shows "stripLiteralsAndComments (0x2F # 0x2A # b @ 0x2A # 0x2F # r) = stripLiteralsAndComments r"
proof -
  let ?t = "0x2F # 0x2A # b @ [0x2A, 0x2F :: jschar]"
  from assms(2,3) have q: "0x27 \<notin> set ?t" "0x22 \<notin> set ?t" by simp_all
  have "stripQuoted 0x22 (stripQuoted 0x27 (?t @ r)) = ?t @ stripQuoted 0x22 (stripQuoted 0x27 r)"
    by (simp only: stripQuoted_append [OF q(1)] stripQuoted_append [OF q(2)])
  then have "stripBlockComments (stripQuoted 0x22 (stripQuoted 0x27 (?t @ r))) =
             stripBlockComments (?t @ stripQuoted 0x22 (stripQuoted 0x27 r))"
    by (rule arg_cong)
  also have "\<dots> = stripBlockComments (stripQuoted 0x22 (stripQuoted 0x27 r))"
    using stripBlock_region [OF assms(1), of "stripQuoted 0x22 (stripQuoted 0x27 r)"] by simp
  finally have "stripLiteralsAndComments (?t @ r) = stripLiteralsAndComments r"
    by (simp only: stripLiteralsAndComments_def)
  then show ?thesis by simp
qed

lemma adjacent_Cons: "c \<noteq> a \<Longrightarrow> adjacent a b (c # s) = adjacent a b s"
  by (cases s) simp_all

lemma strip_line:
  assumes "0x0A \<notin> set b" and "0x27 \<notin> set b" and "0x22 \<notin> set b"
    and "\<not> adjacent 0x2F 0x2A b"
    and "r = [] \<or> (\<exists>t r'. r = (0x0A # t) @ r' \<and> plainText (0x0A # t) \<and>
           (r' = [] \<or> \<not> endsOpen (0x0A # t)))"
  shows "stripLiteralsAndComments (0x2D # 0x2D # b @ r) = stripLiteralsAndComments r"
proof -
  let ?t = "0x2D # 0x2D # b"
  let ?r2 = "stripQuoted 0x22 (stripQuoted 0x27 r)"
  let ?r3 = "stripBlockComments ?r2"
  from assms(2,3) have q: "0x27 \<notin> set ?t" "0x22 \<notin> set ?t" by simp_all
  have p12: "stripQuoted 0x22 (stripQuoted 0x27 (?t @ r)) = ?t @ ?r2"
    by (simp only: stripQuoted_append [OF q(1)] stripQuoted_append [OF q(2)])
  have heads: "(?r2 = [] \<or> hd ?r2 = 0x0A) \<and> (?r3 = [] \<or> hd ?r3 = 0x0A)"
  proof (cases "r = []")
    case True
    then show ?thesis by simp
  next
    case False
    with assms(5) obtain t r' where r: "r = (0x0A # t) @ r'" and pt: "plainText (0x0A # t)"
      and e: "r' = [] \<or> \<not> endsOpen (0x0A # t)"
      by blast
    let ?s2 = "stripQuoted 0x22 (stripQuoted 0x27 r')"
    from pt have tq: "0x27 \<notin> set (0x0A # t)" "0x22 \<notin> set (0x0A # t)"
      and ta: "\<not> adjacent 0x2F 0x2A (0x0A # t)"
      by (simp_all add: plainText_def)
    have r2: "?r2 = (0x0A # t) @ ?s2"
      unfolding r by (simp only: stripQuoted_append [OF tq(1)] stripQuoted_append [OF tq(2)])
    from e have "0x0A # t \<noteq> [] \<Longrightarrow> last (0x0A # t) = 0x2F \<Longrightarrow> ?s2 = [] \<or> hd ?s2 \<noteq> 0x2A"
      by (auto simp: endsOpen_def)
    with ta have "stripBlockComments ((0x0A # t) @ ?s2) = (0x0A # t) @ stripBlockComments ?s2"
      by (rule stripBlock_append)
    with r2 show ?thesis by simp
  qed
  from assms(4) have a: "\<not> adjacent 0x2F 0x2A ?t"
    by (simp add: adjacent_Cons)
  from heads have bnd: "?t \<noteq> [] \<Longrightarrow> last ?t = 0x2F \<Longrightarrow> ?r2 = [] \<or> hd ?r2 \<noteq> 0x2A"
    by auto
  from a bnd have p3: "stripBlockComments (?t @ ?r2) = ?t @ ?r3"
    by (rule stripBlock_append)
  from heads have p4: "stripLineComments (?t @ ?r3) = stripLineComments ?r3"
    using stripLine_region [OF assms(1), of ?r3] by simp
  have "stripLiteralsAndComments (?t @ r) = stripLiteralsAndComments r"
    by (simp only: stripLiteralsAndComments_def p12 p3 p4)
  then show ?thesis by simp
qed

lemma lineEnds_cases:
  "lineEnds ps \<Longrightarrow> ps = [] \<or> (\<exists>t ps'. ps = Text (0x0A # t) # ps')"
  by (induction ps rule: lineEnds.induct) simp_all

lemma renderAll_Nil [simp]: "renderAll [] = []"
  by (simp add: renderAll_def)

lemma renderAll_Cons [simp]: "renderAll (p # ps) = render p @ renderAll ps"
  by (simp add: renderAll_def)

lemma joined_Nil [simp]: "joined [] = []"
  by (simp add: joined_def)

lemma joined_Cons [simp]: "joined (p # ps) = outsidePart p @ joined ps"
  by (simp add: joined_def)

lemma gapped_Nil [simp]: "gapped [] = []"
  by (simp add: gapped_def)

lemma gapped_Cons [simp]: "gapped (p # ps) = gapPart p @ gapped ps"
  by (simp add: gapped_def)

lemma strip_Nil [simp]: "stripLiteralsAndComments [] = []"
  by (simp add: stripLiteralsAndComments_def)

lemma line_follower:
  assumes "lineEnds ps" and "separated ps"
  shows "renderAll ps = [] \<or> (\<exists>t r'. renderAll ps = (0x0A # t) @ r' \<and> plainText (0x0A # t) \<and>
           (r' = [] \<or> \<not> endsOpen (0x0A # t)))"
proof (cases "ps = []")
  case True
  then show ?thesis by simp
next
  case False
  with lineEnds_cases [OF assms(1)] obtain t ps' where ps: "ps = Text (0x0A # t) # ps'"
    by blast
  with assms(2) have pt: "plainText (0x0A # t)" and e: "ps' = [] \<or> \<not> endsOpen (0x0A # t)"
    by simp_all
  from e have "renderAll ps' = [] \<or> \<not> endsOpen (0x0A # t)" by auto
  with pt ps show ?thesis by auto
qed

text \<open>
  On separated pieces the four passes leave exactly the outside texts, put end to end;
  and the single pass of \<open>outsideText\<close> finds the same regions, leaving a gap for
  each.
\<close>

lemma strip_separated: "separated ps \<Longrightarrow> stripLiteralsAndComments (renderAll ps) = joined ps"
proof (induction ps rule: separated.induct)
  case 1
  then show ?case by simp
next
  case (2 t ps)
  then have pt: "plainText t" and e: "ps = [] \<or> \<not> endsOpen t" and s: "separated ps"
    by simp_all
  from e have "renderAll ps = [] \<or> \<not> endsOpen t" by auto
  from strip_text [OF pt this] "2.IH" [OF s] show ?case by simp
next
  case (3 b ps)
  then show ?case by (simp add: strip_single)
next
  case (4 b ps)
  then show ?case by (simp add: strip_double)
next
  case (5 b ps)
  then show ?case by (simp add: strip_block)
next
  case (6 b ps)
  then have b: "0x0A \<notin> set b" "0x27 \<notin> set b" "0x22 \<notin> set b" "\<not> adjacent 0x2F 0x2A b"
    and l: "lineEnds ps" and s: "separated ps"
    by simp_all
  from strip_line [OF b line_follower [OF l s]] "6.IH" [OF s] show ?case by simp
qed

lemma outsideText_text:
  "plainText t \<Longrightarrow> r = [] \<or> \<not> endsOpen t \<Longrightarrow> outsideText (t @ r) = t @ outsideText r"
proof (induction t)
  case Nil
  then show ?case by simp
next
  case (Cons c t)
  show ?case
  proof (cases t)
    case Nil
    with Cons.prems show ?thesis
      by (cases r) (auto simp: plainText_def endsOpen_def startsWith_def)
  next
    case (Cons d ds)
    with Cons.prems have "plainText t" "r = [] \<or> \<not> endsOpen t"
      by (auto simp: plainText_def endsOpen_def)
    from Cons.IH [OF this] Cons Cons.prems show ?thesis
      by (auto simp: plainText_def startsWith_def)
  qed
qed

lemma outsideText_quoted:
  "quotedBody q b \<Longrightarrow> q = 0x27 \<or> q = 0x22 \<Longrightarrow>
   outsideText (q # b @ q # r) = 0x20 # outsideText r"
  by (auto simp: skipQuoted_body)

lemma outsideText_block:
  "blockBody b \<Longrightarrow> outsideText (0x2F # 0x2A # b @ 0x2A # 0x2F # r) = 0x20 # outsideText r"
  by (simp add: startsWith_def skipBlock_body blockBody_def)

lemma outsideText_line:
  "0x0A \<notin> set b \<Longrightarrow> r = [] \<or> hd r = 0x0A \<Longrightarrow>
   outsideText (0x2D # 0x2D # b @ r) = 0x20 # outsideText r"
  by (simp add: startsWith_def dropWhile_line)

lemma outsideText_separated: "separated ps \<Longrightarrow> outsideText (renderAll ps) = gapped ps"
proof (induction ps rule: separated.induct)
  case 1
  then show ?case by simp
next
  case (2 t ps)
  then have pt: "plainText t" and e: "ps = [] \<or> \<not> endsOpen t" and s: "separated ps"
    by simp_all
  from e have "renderAll ps = [] \<or> \<not> endsOpen t" by auto
  from outsideText_text [OF pt this] "2.IH" [OF s] show ?case
    by (simp del: outsideText.simps)
next
  case (3 b ps)
  then show ?case by (simp add: outsideText_quoted del: outsideText.simps)
next
  case (4 b ps)
  then show ?case by (simp add: outsideText_quoted del: outsideText.simps)
next
  case (5 b ps)
  then show ?case by (simp add: outsideText_block del: outsideText.simps)
next
  case (6 b ps)
  then have b: "0x0A \<notin> set b" and l: "lineEnds ps" and s: "separated ps"
    by simp_all
  from lineEnds_cases [OF l] have "renderAll ps = [] \<or> hd (renderAll ps) = 0x0A"
    by auto
  from outsideText_line [OF b this] "6.IH" [OF s] show ?case
    by (simp del: outsideText.simps)
qed

subsection \<open>Keywords outside literals and comments\<close>

text \<open>
  What the code does once the multi-statement test has passed: when some mutation
  keyword matches as a whole word in the text left by \<open>stripLiteralsAndComments\<close>, the
  query is denied and the reason names the first keyword of \<open>MUTATION_KEYWORDS\<close> that
  matches there.
\<close>

lemma validateQuery_denies_sanitized:
  assumes "0x3B \<notin> set (stripOneTerminator (trim query))"
    and "kw \<in> set MUTATION_KEYWORDS"
    and "testWord kw (stripLiteralsAndComments (trim query))"
  shows "\<exists>k. find (\<lambda>k. testWord k (stripLiteralsAndComments (trim query))) MUTATION_KEYWORDS
            = Some k \<and>
          validateQuery query False = \<lparr>allowed = False, reason = Some (blockedReason k)\<rparr>"
proof -
  let ?s = "stripLiteralsAndComments (trim query)"
  from assms(2,3) have "find (\<lambda>k. testWord k ?s) MUTATION_KEYWORDS \<noteq> None"
    by (auto simp: find_None_iff)
  then obtain k where k: "find (\<lambda>k. testWord k ?s) MUTATION_KEYWORDS = Some k"
    by auto
  with assms(1) show ?thesis
    by (simp add: validateQuery_single_statement scanKeywords_find)
qed

text \<open>
  On separated pieces with no semicolon but a trailing one, a mutation keyword that is
  a whole word of the outside texts put end to end is denied.
\<close>

lemma validateQuery_denies_joined:
  assumes "trim query = renderAll ps" and "separated ps"
    and "0x3B \<notin> set (stripOneTerminator (trim query))"
    and "kw \<in> set MUTATION_KEYWORDS"
    and "containsWord kw (joined ps)"
  shows "\<exists>k. find (\<lambda>k. containsWord k (joined ps)) MUTATION_KEYWORDS = Some k \<and>
          validateQuery query False = \<lparr>allowed = False, reason = Some (blockedReason k)\<rparr>"
proof -
  from assms(1,2) have s: "stripLiteralsAndComments (trim query) = joined ps"
    by (simp add: strip_separated)
  from assms(4,5) have "testWord kw (joined ps)"
    by (simp add: testWord_keyword)
  with validateQuery_denies_sanitized [OF assms(3,4)] s show ?thesis
    by (simp add: find_keyword)
qed

text \<open>
  C1. The claim: a mutation keyword that stands as a whole word outside every string
  literal, quoted identifier and comment is denied, wherever it stands in the statement.
  The code does not keep it. A region is replaced by the empty string, so the
  text on its two sides is joined before the keywords are looked for: in
  \<open>DELETE/**/FROM t\<close> the keyword DELETE stands outside the comment, between the start
  of the text and the slash; the passes leave \<open>DELETEFROM t\<close>, in which no keyword is a
  whole word, and the query is allowed. And each pass reads the whole text, so a quote
  inside a comment opens a match for the pass that removes literals: in
  \<open>/* don't */ DELETE FROM t /* don't */\<close> the first pass removes what lies between the
  two apostrophes, DELETE included, and the query is allowed.
\<close>

theorem validateQuery_allows_outside_keyword:
  "js ''DELETE'' \<in> set MUTATION_KEYWORDS \<and>
   0x3B \<notin> set (trim (js ''DELETE/**/FROM t'')) \<and>
   outsideText (trim (js ''DELETE/**/FROM t'')) = js ''DELETE FROM t'' \<and>
   containsWord (js ''DELETE'') (outsideText (trim (js ''DELETE/**/FROM t''))) \<and>
   stripLiteralsAndComments (trim (js ''DELETE/**/FROM t'')) = js ''DELETEFROM t'' \<and>
   validateQuery (js ''DELETE/**/FROM t'') False = \<lparr>allowed = True, reason = None\<rparr> \<and>
   0x3B \<notin> set (trim (js ''/* don't */ DELETE FROM t /* don't */'')) \<and>
   outsideText (trim (js ''/* don't */ DELETE FROM t /* don't */'')) = js ''  DELETE FROM t  '' \<and>
   containsWord (js ''DELETE'')
     (outsideText (trim (js ''/* don't */ DELETE FROM t /* don't */''))) \<and>
   stripQuoted 0x27 (trim (js ''/* don't */ DELETE FROM t /* don't */'')) = js ''/* dont */'' \<and>
   stripLiteralsAndComments (trim (js ''/* don't */ DELETE FROM t /* don't */'')) = [] \<and>
   validateQuery (js ''/* don't */ DELETE FROM t /* don't */'') False
     = \<lparr>allowed = True, reason = None\<rparr>"
proof -
  let ?a = "js ''DELETE/**/FROM t''"
  let ?b = "js ''/* don't */ DELETE FROM t /* don't */''"
  have k: "js ''DELETE'' \<in> set MUTATION_KEYWORDS"
    by code_simp
  have a1: "0x3B \<notin> set (trim ?a)"
    by code_simp
  have a2: "outsideText (trim ?a) = js ''DELETE FROM t''"
    by code_simp
  have "testWord (js ''DELETE'') (outsideText (trim ?a))"
    by code_simp
  with k have a3: "containsWord (js ''DELETE'') (outsideText (trim ?a))"
    by (simp add: testWord_keyword)
  have a4: "stripLiteralsAndComments (trim ?a) = js ''DELETEFROM t''"
    by code_simp
  have a5: "validateQuery ?a False = \<lparr>allowed = True, reason = None\<rparr>"
    by code_simp
  have b1: "0x3B \<notin> set (trim ?b)"
    by code_simp
  have b2: "outsideText (trim ?b) = js ''  DELETE FROM t  ''"
    by code_simp
  have "testWord (js ''DELETE'') (outsideText (trim ?b))"
    by code_simp
  with k have b3: "containsWord (js ''DELETE'') (outsideText (trim ?b))"
    by (simp add: testWord_keyword)
  have b4: "stripQuoted 0x27 (trim ?b) = js ''/* dont */''"
    by code_simp
  have b5: "stripLiteralsAndComments (trim ?b) = []"
    by code_simp
  have b6: "validateQuery ?b False = \<lparr>allowed = True, reason = None\<rparr>"
    by code_simp
  from k a1 a2 a3 a4 a5 b1 b2 b3 b4 b5 b6 show ?thesis by blast
qed

text \<open>
  The same inside a common table expression, where the leading token is \<open>WITH\<close>.
\<close>

lemma validateQuery_allows_cte_keyword:
  "outsideText (trim (js ''WITH x AS (DELETE/**/FROM t RETURNING a) SELECT a FROM x''))
     = js ''WITH x AS (DELETE FROM t RETURNING a) SELECT a FROM x'' \<and>
   validateQuery (js ''WITH x AS (DELETE/**/FROM t RETURNING a) SELECT a FROM x'') False
     = \<lparr>allowed = True, reason = None\<rparr> \<and>
   validateQuery (js ''WITH x AS (DELETE FROM t RETURNING a) SELECT a FROM x'') False
     = \<lparr>allowed = False, reason = Some (blockedReason (js ''DELETE''))\<rparr>"
  by code_simp

text \<open>
  Where a keyword outside is denied, the reason need not name it. The multi-statement
  test comes first: in \<open>SELECT 1; DROP TABLE x\<close> the keyword DROP stands outside, and
  the reason returned is the multi-statement one. And the loop stops at the first
  keyword of \<open>MUTATION_KEYWORDS\<close> that matches: in
  \<open>INSERT INTO t VALUES (1) ON CONFLICT (a) DO UPDATE SET a = 2\<close> the keyword UPDATE
  stands outside, and the reason names INSERT.
\<close>

lemma validateQuery_reason_names_other:
  "validateQuery (js ''SELECT 1; DROP TABLE x'') False =
     \<lparr>allowed = False, reason = Some (js ''multiple statements not allowed'')\<rparr> \<and>
   validateQuery (js ''INSERT INTO t VALUES (1) ON CONFLICT (a) DO UPDATE SET a = 2'') False =
     \<lparr>allowed = False, reason = Some (blockedReason (js ''INSERT''))\<rparr> \<and>
   blockedReason (js ''INSERT'') \<noteq> blockedReason (js ''UPDATE'')"
  by code_simp

text \<open>
  The other copy of the module denies on the leading token only: a mutation inside a
  common table expression or after a semicolon is allowed there.
\<close>

lemma validateQuery_leading_bypass:
  "validateQuery_leading asciiUpperCase
     (js ''WITH x AS (DELETE FROM t RETURNING *) SELECT * FROM x'') False
     = \<lparr>allowed = True, reason = None\<rparr> \<and>
   validateQuery_leading asciiUpperCase (js ''SELECT 1; DROP TABLE x'') False
     = \<lparr>allowed = True, reason = None\<rparr> \<and>
   validateQuery_leading asciiUpperCase (js ''  drop table x'') False
     = \<lparr>allowed = False, reason = Some (blockedReason (js ''DROP''))\<rparr>"
  by code_simp

subsection \<open>Keywords inside literals and comments\<close>





section \<open>Properties of the formatter\<close>

lemma length_js [simp]: "length (js s) = length s"
  by (simp add: js_def)

text \<open>
  C9. A text cell is a value that reaches \<open>String(value)\<close> in \<open>sanitizeCell\<close> (a string,
  a number, a boolean), given here by that string form. The maximum width is 200. A
  string form longer than the maximum becomes its first 197 units followed by three
  dots, which is exactly 200 units long; a string form of at most 200 units is returned
  as it is.
\<close>

theorem sanitizeCell_text_width:
  "MAX_CELL_WIDTH = 200 \<and>
   (if length str > MAX_CELL_WIDTH
    then sanitizeCell (Prim str) = take (MAX_CELL_WIDTH - 3) str @ js ''...'' \<and>
         length (sanitizeCell (Prim str)) = MAX_CELL_WIDTH
    else sanitizeCell (Prim str) = str)"
  by (simp add: MAX_CELL_WIDTH_def)

theorem sanitizeCell_text_width_witness:
  "MAX_CELL_WIDTH < length (replicate 201 (0x41 :: jschar)) \<and>
   length (sanitizeCell (Prim (replicate 201 0x41))) = MAX_CELL_WIDTH \<and>
   \<not> MAX_CELL_WIDTH < length (js ''abc'') \<and>
   sanitizeCell (Prim (js ''abc'')) = js ''abc''"
proof -
  have long: "MAX_CELL_WIDTH < length (replicate 201 (0x41 :: jschar))"
    by (simp add: MAX_CELL_WIDTH_def)
  have short: "\<not> MAX_CELL_WIDTH < length (js ''abc'')"
    by (simp add: MAX_CELL_WIDTH_def)
  note sanitizeCell_text_width [of "replicate 201 0x41", THEN conjunct2, unfolded if_P [OF long]]
  then have a: "length (sanitizeCell (Prim (replicate 201 0x41))) = MAX_CELL_WIDTH"
    by (rule conjunct2)
  note sanitizeCell_text_width [of "js ''abc''", THEN conjunct2, unfolded if_not_P [OF short]]
  then have b: "sanitizeCell (Prim (js ''abc'')) = js ''abc''" .
  from long short a b show ?thesis by blast
qed

text \<open>
  The other kinds of value leave \<open>sanitizeCell\<close> before the width test: the JSON text of
  an object is returned whole, whatever its length.
\<close>

lemma sanitizeCell_object_whole: "sanitizeCell (Object (Some s)) = s"
  by simp

subsection \<open>Columns\<close>

lemma objectKeys_plain:
  "list_all (\<lambda>k. \<not> isArrayIndex k) (map fst obj) \<Longrightarrow> objectKeys obj = map fst obj"
  by (simp add: objectKeys_def list_all_iff)

text \<open>
  The two loops of \<open>formatTable\<close>, written out: the cells of a row are the rendered
  values of \<open>row[c]\<close> for the columns \<open>c\<close>, and the width of a column is what the
  successive rows make of it.
\<close>

lemma fillRow_explicit:
  "fillRow r cols =
     (map (\<lambda>c. c\<lparr>width := min (max (width c) (length (sanitizeCell (getProp r (name c)))))
                           MAX_CELL_WIDTH\<rparr>) cols,
      map (\<lambda>c. sanitizeCell (getProp r (name c))) cols)"
  by (induction cols) (simp_all add: Let_def)

lemma fillGrid_explicit:
  "fillGrid cols rs =
     (map (\<lambda>c. c\<lparr>width :=
              foldl (\<lambda>w r. min (max w (length (sanitizeCell (getProp r (name c))))) MAX_CELL_WIDTH)
                (width c) rs\<rparr>) cols,
      map (\<lambda>r. map (\<lambda>c. sanitizeCell (getProp r (name c))) cols) rs)"
proof (induction rs arbitrary: cols)
  case Nil
  then show ?case by (simp add: map_idI)
next
  case (Cons r rs)
  show ?case
    by (simp add: fillRow_explicit Cons.IH comp_def)
qed

lemma foldl_width:
  "rs \<noteq> [] \<Longrightarrow>
   foldl (\<lambda>w r. min (max w (l r)) m) w0 rs = min (Max (set (w0 # map l rs))) (m :: nat)"
proof (induction rs arbitrary: w0)
  case Nil
  then show ?case by simp
next
  case (Cons r rs)
  show ?case
  proof (cases "rs = []")
    case True
    then show ?thesis by (simp add: max.commute)
  next
    case False
    then have ne: "set (map l rs) \<noteq> {}" by simp
    have fin: "finite (set (map l rs))" by simp
    from Cons.IH [OF False, of "min (max w0 (l r)) m"]
    have "foldl (\<lambda>w r. min (max w (l r)) m) w0 (r # rs) =
          min (Max (insert (min (max w0 (l r)) m) (set (map l rs)))) m"
      by simp
    also have "\<dots> = min (max (min (max w0 (l r)) m) (Max (set (map l rs)))) m"
      using Max_insert [OF fin ne] by simp
    also have "\<dots> = min (max w0 (max (l r) (Max (set (map l rs))))) m"
      by (simp add: min_def max_def)
    also have "\<dots> = min (Max (insert w0 (insert (l r) (set (map l rs))))) m"
      using Max_insert [OF fin ne] Max_insert [of "insert (l r) (set (map l rs))" w0] by simp
    finally show ?thesis by simp
  qed
qed

lemma fillGrid_width:
  "rs \<noteq> [] \<Longrightarrow>
   fillGrid (map (\<lambda>n. \<lparr>name = n, width = length n\<rparr>) ks) rs =
     (map (\<lambda>n. \<lparr>name = n, width = columnWidth rs n\<rparr>) ks,
      map (\<lambda>r. map (\<lambda>n. sanitizeCell (getProp r n)) ks) rs)"
  by (simp add: fillGrid_explicit foldl_width columnWidth_def comp_def)

lemma zip_cells:
  "map (\<lambda>(cell, c). padEnd cell (width c)) (zip (map f ks) (map g ks)) =
   map (\<lambda>n. padEnd (f n) (width (g n))) ks"
  by (induction ks) simp_all

text \<open>
  What a row holds under a key that is no column has no effect on either loop.
\<close>

lemma fillRow_cong:
  "\<forall>k \<in> name ` set cols. getProp r k = getProp r' k \<Longrightarrow> fillRow r cols = fillRow r' cols"
  by (induction cols) (simp_all add: Let_def split: prod.splits)

lemma fillRow_names: "map name (fst (fillRow r cols)) = map name cols"
  by (simp add: fillRow_explicit comp_def)

lemma fillGrid_cong:
  "list_all2 (\<lambda>r r'. \<forall>k \<in> set ks. getProp r k = getProp r' k) rs rs' \<Longrightarrow>
   name ` set cols \<subseteq> set ks \<Longrightarrow> fillGrid cols rs = fillGrid cols rs'"
proof (induction rs rs' arbitrary: cols rule: list_all2_induct)
  case Nil
  then show ?case by simp
next
  case (Cons r rs r' rs')
  from Cons.hyps(1) Cons.prems have "\<forall>k \<in> name ` set cols. getProp r k = getProp r' k"
    by blast
  then have eq: "fillRow r cols = fillRow r' cols"
    by (rule fillRow_cong)
  obtain cols' cells where fr: "fillRow r' cols = (cols', cells)"
    by (cases "fillRow r' cols")
  have "map name cols' = map name cols"
    using fillRow_names [of r' cols] fr by simp
  then have "set (map name cols') = set (map name cols)"
    by simp
  with Cons.prems have "name ` set cols' \<subseteq> set ks" by simp
  from Cons.IH [OF this] eq fr show ?case by simp
qed

lemma csv_line_cong:
  "\<forall>k \<in> set ks. getProp r k = getProp r' k \<Longrightarrow>
   map (\<lambda>c. csvEscape (sanitizeCell (getProp r c))) ks =
   map (\<lambda>c. csvEscape (sanitizeCell (getProp r' c))) ks"
  by (induction ks) simp_all

lemma csv_body_cong:
  "list_all2 (\<lambda>r r'. \<forall>k \<in> set ks. getProp r k = getProp r' k) rs rs' \<Longrightarrow>
   map (\<lambda>row. join [0x2C] (map (\<lambda>c. csvEscape (sanitizeCell (getProp row c))) ks)) rs =
   map (\<lambda>row. join [0x2C] (map (\<lambda>c. csvEscape (sanitizeCell (getProp row c))) ks)) rs'"
proof (induction rs rs' rule: list_all2_induct)
  case Nil
  then show ?case by simp
next
  case (Cons r rs r' rs')
  have "join [0x2C] (map (\<lambda>c. csvEscape (sanitizeCell (getProp r c))) ks) =
        join [0x2C] (map (\<lambda>c. csvEscape (sanitizeCell (getProp r' c))) ks)"
    using csv_line_cong [OF Cons.hyps(1)] by (rule arg_cong)
  with Cons.IH show ?case by simp
qed

text \<open>
  C10, as stated, fails on the order of the columns: \<open>Object.keys\<close> lists a key that is
  an array index before every other key, and such keys in ascending order. A row
  created with the key \<open>2\<close> and then the key \<open>1\<close> gives the columns \<open>1\<close>, \<open>2\<close>.
\<close>

theorem columns_order_counterexample:
  "map fst (ownProperties (plainObject [(js ''2'', Prim (js ''b'')), (js ''1'', Prim (js ''a''))]))
     = [js ''2'', js ''1''] \<and>
   objectKeys (ownProperties (plainObject [(js ''2'', Prim (js ''b'')), (js ''1'', Prim (js ''a''))]))
     = [js ''1'', js ''2''] \<and>
   formatCsv [plainObject [(js ''2'', Prim (js ''b'')), (js ''1'', Prim (js ''a''))]]
     = Inr (js ''1,2'' @ [0x0A] @ js ''a,b'') \<and>
   formatTable [plainObject [(js ''2'', Prim (js ''b'')), (js ''1'', Prim (js ''a''))]] None
     = Inr (js ''1 | 2'' @ [0x0A] @ [0x2500, 0x2500, 0x253C, 0x2500, 0x2500] @ [0x0A] @
            js ''a | b'' @ [0x0A, 0x0A] @ js ''(1 row)'')"
  by code_simp

text \<open>
  C10, amended. For a non-empty list of rows, the columns of the CSV and table
  encodings are the own keys of the first row in the order of \<open>Object.keys\<close>
  (array-index keys ascending, then the other keys in insertion order;
  \<open>objectKeys_plain\<close>). The CSV text is the line of these keys followed, for each row,
  by the line of its cells under these keys. The table is the line of these keys, each
  padded to the width of its column, the separator line, for each row the line of its
  cells under these keys, padded likewise, and the caption; the width of a column is
  that of its widest cell or of its key, at most 200. A cell is what \<open>row[c]\<close> gives:
  the row's own value, else an inherited one, else \<open>undefined\<close>, rendered \<open>NULL\<close>. What
  a later row holds under any other key has no effect on either text: two lists of
  later rows that agree under the keys of the first row give the same CSV and the same
  table.
\<close>

theorem columns_from_first_row:
  assumes "list_all2 (\<lambda>r r'. \<forall>k \<in> set (objectKeys (ownProperties first)).
             getProp r k = getProp r' k) rest rest'"
  shows "(let columns = objectKeys (ownProperties first); rows = first # rest
          in formatCsv rows =
               Inr (join [0x0A] (map (join [0x2C])
                 (map csvEscape columns #
                  map (\<lambda>r. map (\<lambda>c. csvEscape (sanitizeCell (getProp r c))) columns) rows))) \<and>
             formatTable rows t =
               Inr (join [0x0A]
                 ([join (js '' | '') (map (\<lambda>c. padEnd c (columnWidth rows c)) columns),
                   join [0x2500, 0x253C, 0x2500]
                     (map (\<lambda>c. replicate (columnWidth rows c) 0x2500) columns)] @
                  map (\<lambda>r. join (js '' | '')
                         (map (\<lambda>c. padEnd (sanitizeCell (getProp r c)) (columnWidth rows c))
                            columns)) rows @
                  [rowsCaption (length rows) t]))) \<and>
         formatCsv (first # rest') = formatCsv (first # rest) \<and>
         formatTable (first # rest') t = formatTable (first # rest) t"
proof -
  let ?ks = "objectKeys (ownProperties first)"
  let ?cols = "map (\<lambda>n. \<lparr>name = n, width = length n\<rparr>) ?ks"
  let ?rows = "first # rest"
  have csvForm: "formatCsv ?rows =
      Inr (join [0x0A] (map (join [0x2C])
        (map csvEscape ?ks #
         map (\<lambda>r. map (\<lambda>c. csvEscape (sanitizeCell (getProp r c))) ?ks) ?rows)))"
    by (simp add: Let_def comp_def)
  have grid: "fillGrid ?cols ?rows =
      (map (\<lambda>n. \<lparr>name = n, width = columnWidth ?rows n\<rparr>) ?ks,
       map (\<lambda>r. map (\<lambda>n. sanitizeCell (getProp r n)) ?ks) ?rows)"
    by (rule fillGrid_width) simp
  have tabForm: "formatTable ?rows t =
      Inr (join [0x0A]
        ([join (js '' | '') (map (\<lambda>c. padEnd c (columnWidth ?rows c)) ?ks),
          join [0x2500, 0x253C, 0x2500] (map (\<lambda>c. replicate (columnWidth ?rows c) 0x2500) ?ks)] @
         map (\<lambda>r. join (js '' | '')
                (map (\<lambda>c. padEnd (sanitizeCell (getProp r c)) (columnWidth ?rows c)) ?ks)) ?rows @
         [rowsCaption (length ?rows) t]))"
    unfolding formatTable.simps Let_def grid
    by (simp add: comp_def zip_cells)
  have all: "list_all2 (\<lambda>r r'. \<forall>k \<in> set ?ks. getProp r k = getProp r' k)
               (first # rest) (first # rest')"
    using assms by simp
  have csv: "formatCsv (first # rest') = formatCsv (first # rest)"
    using csv_body_cong [OF assms] by (simp add: Let_def)
  have "name ` set ?cols \<subseteq> set ?ks" by auto
  from fillGrid_cong [OF all this]
  have same: "fillGrid ?cols (first # rest) = fillGrid ?cols (first # rest')" .
  from assms have len: "length rest = length rest'"
    by (rule list_all2_lengthD)
  have tab: "formatTable (first # rest') t = formatTable (first # rest) t"
    unfolding formatTable.simps same Let_def using len by simp
  from csvForm tabForm csv tab show ?thesis
    unfolding Let_def by blast
qed

theorem columns_from_first_row_witness:
  "list_all2 (\<lambda>r r'.
       list_all (\<lambda>k. getProp r k = getProp r' k)
         (objectKeys (ownProperties
            (plainObject [(js ''id'', Prim (js ''1'')), (js ''name'', Prim (js ''a''))]))))
     [plainObject [(js ''id'', Prim (js ''2'')), (js ''name'', Prim (js ''b''))]]
     [plainObject [(js ''id'', Prim (js ''2'')), (js ''extra'', Prim (js ''z'')),
                   (js ''name'', Prim (js ''b''))]] \<and>
   formatCsv [plainObject [(js ''id'', Prim (js ''1'')), (js ''name'', Prim (js ''a''))],
              plainObject [(js ''id'', Prim (js ''2'')), (js ''extra'', Prim (js ''z'')),
                           (js ''name'', Prim (js ''b''))]]
     = Inr (js ''id,name'' @ [0x0A] @ js ''1,a'' @ [0x0A] @ js ''2,b'') \<and>
   formatTable [plainObject [(js ''id'', Prim (js ''1'')), (js ''name'', Prim (js ''a''))],
                plainObject [(js ''id'', Prim (js ''2'')), (js ''extra'', Prim (js ''z'')),
                             (js ''name'', Prim (js ''b''))]] None
     = Inr (js ''id | name'' @ [0x0A] @
            [0x2500, 0x2500, 0x2500, 0x253C, 0x2500, 0x2500, 0x2500, 0x2500, 0x2500] @ [0x0A] @
            js ''1  | a   '' @ [0x0A] @ js ''2  | b   '' @ [0x0A, 0x0A] @ js ''(2 rows)'')"
proof -
  let ?first = "plainObject [(js ''id'', Prim (js ''1'')), (js ''name'', Prim (js ''a''))]"
  let ?rest = "[plainObject [(js ''id'', Prim (js ''2'')), (js ''name'', Prim (js ''b''))]]"
  let ?rest' = "[plainObject [(js ''id'', Prim (js ''2'')), (js ''extra'', Prim (js ''z'')),
                              (js ''name'', Prim (js ''b''))]]"
  have h: "list_all2 (\<lambda>r r'. list_all (\<lambda>k. getProp r k = getProp r' k)
             (objectKeys (ownProperties ?first))) ?rest ?rest'"
    by code_simp
  then have h': "list_all2 (\<lambda>r r'. \<forall>k \<in> set (objectKeys (ownProperties ?first)).
             getProp r k = getProp r' k) ?rest ?rest'"
    by (simp only: list_all_iff)
  have v: "formatCsv (?first # ?rest) = Inr (js ''id,name'' @ [0x0A] @ js ''1,a'' @ [0x0A] @ js ''2,b'')"
    by code_simp
  have w: "formatTable (?first # ?rest) None
     = Inr (js ''id | name'' @ [0x0A] @
            [0x2500, 0x2500, 0x2500, 0x253C, 0x2500, 0x2500, 0x2500, 0x2500, 0x2500] @ [0x0A] @
            js ''1  | a   '' @ [0x0A] @ js ''2  | b   '' @ [0x0A, 0x0A] @ js ''(2 rows)'')"
    by code_simp
  from columns_from_first_row [OF h', of None] h v w show ?thesis by simp
qed

text \<open>
  A column that a later row does not own is read from that row's prototype chain: for a
  plain object and the column \<open>toString\<close> the cell is the source text of the inherited
  function, and for a column that no object of the chain has it is \<open>NULL\<close>.
\<close>

lemma inherited_cell:
  "formatCsv [plainObject [(js ''toString'', Prim (js ''x'')), (js ''a'', Prim (js ''1''))],
              plainObject [(js ''a'', Prim (js ''2''))]]
     = Inr (js ''toString,a'' @ [0x0A] @ js ''x,1'' @ [0x0A] @
            js ''function toString() { [native code] },2'') \<and>
   formatCsv [plainObject [(js ''b'', Prim (js ''x'')), (js ''a'', Prim (js ''1''))],
              plainObject [(js ''a'', Prim (js ''2''))]]
     = Inr (js ''b,a'' @ [0x0A] @ js ''x,1'' @ [0x0A] @ js ''NULL,2'')"
  by code_simp

section \<open>Properties of the drivers and the gateway\<close>

subsection \<open>The row cap\<close>

lemma slice0_length: "0 \<le> e \<Longrightarrow> int (length (slice0 xs e)) \<le> e"
  by (simp add: slice0_def)

lemma SqliteDriver_query_rows:
  "SqliteDriver_query up db sql limit t = Inr r \<Longrightarrow> 0 \<le> limit \<Longrightarrow> int (length (rows r)) \<le> limit"
  by (auto simp: SqliteDriver_query_def Let_def slice0_length
      split: option.splits if_splits sum.splits)

lemma MysqlDriver_query_rows:
  "MysqlDriver_query up pool sql limit t = Inr r \<Longrightarrow> 0 \<le> limit \<Longrightarrow> int (length (rows r)) \<le> limit"
  by (auto simp: MysqlDriver_query_def Let_def slice0_length
      split: option.splits if_splits sum.splits MysqlAnswer.splits)

lemma PostgresDriver_query_rows:
  "PostgresDriver_query up pool sql limit t = Inr r \<Longrightarrow> 0 \<le> limit \<Longrightarrow> int (length (rows r)) \<le> limit"
  by (auto simp: PostgresDriver_query_def Let_def slice0_length
      split: option.splits if_splits sum.splits)

lemma driver_query_rows:
  "driver_query up d sql limit t = Inr r \<Longrightarrow> 0 \<le> limit \<Longrightarrow> int (length (rows r)) \<le> limit"
  by (cases d) (simp_all add: SqliteDriver_query_rows MysqlDriver_query_rows PostgresDriver_query_rows)

lemma resolveConfig_maxRows: "maxRows (resolveConfig raw) \<le> 10000"
  by (simp add: resolveConfig_def DEFAULTS_def split: option.splits)

text \<open>
  For a limit that is not negative, every driver ends with \<open>rows.slice(0, limit)\<close>
  and returns at most that many rows; and the configured cap is at most 10000 whatever
  value the configuration gives.
\<close>

lemma query_rows_bounded:
  assumes "0 \<le> queryLimit requested (resolveConfig raw)"
    and "driver_query up d sql (queryLimit requested (resolveConfig raw))
           (queryTimeout (resolveConfig raw)) = Inr r"
  shows "int (length (rows r)) \<le> min (orElse requested 100) (maxRows (resolveConfig raw)) \<and>
         maxRows (resolveConfig raw) \<le> 10000"
  using driver_query_rows [OF assms(2) assms(1)] resolveConfig_maxRows [of raw]
  by (simp add: queryLimit_def)

text \<open>
  C4. The claim: the rows returned never exceed the lesser of the requested limit and
  the configured cap. The code does not keep it for a negative limit, which the
  \<open>db_query\<close> tool passes on as it is given: \<open>Math.min\<close> of the limit and the cap is
  then the negative limit, and \<open>rows.slice(0, limit)\<close>, meant to cut the fetched rows
  down to the limit, counts a negative end from the end of the array. With the cap
  configured as 1, the limit \<open>-1\<close> and a statement that carries its own \<open>LIMIT\<close> (so
  that the SQLite driver adds none), three fetched rows give two returned rows: more
  than the cap, and more than the lesser of the limit and the cap.
\<close>

theorem query_rows_exceed_cap:
  "maxRows (resolveConfig (Some (twoConnections\<lparr>raw_maxRows := Some 1\<rparr>))) = 1 \<and>
   queryLimit (Some (- 1)) (resolveConfig (Some (twoConnections\<lparr>raw_maxRows := Some 1\<rparr>))) = - 1 \<and>
   stmt_all tableDb (js ''SELECT a FROM t LIMIT 3'') = Inr tableRows \<and>
   length tableRows = 3 \<and>
   driver_query asciiUpperCase (SqliteDriver (Some tableDb)) (js ''SELECT a FROM t LIMIT 3'')
     (queryLimit (Some (- 1)) (resolveConfig (Some (twoConnections\<lparr>raw_maxRows := Some 1\<rparr>))))
     (queryTimeout (resolveConfig (Some (twoConnections\<lparr>raw_maxRows := Some 1\<rparr>))))
   = Inr \<lparr>rows = take 2 tableRows, rowCount = 2, totalAvailable = Some 3\<rparr> \<and>
   length (take 2 tableRows) = 2 \<and>
   maxRows (resolveConfig (Some (twoConnections\<lparr>raw_maxRows := Some 1\<rparr>)))
     < int (length (take 2 tableRows)) \<and>
   min (- 1) (maxRows (resolveConfig (Some (twoConnections\<lparr>raw_maxRows := Some 1\<rparr>))))
     < int (length (take 2 tableRows))"
  by code_simp

text \<open>
  The bound is on the rows returned, not on the field \<open>rowCount\<close>: in the MySQL and
  PostgreSQL drivers that field is the number of rows fetched, which exceeds the limit
  when the statement is one the driver does not wrap.
\<close>

lemma rowCount_is_fetched:
  "driver_query asciiUpperCase (PostgresDriver (Some tablePgPool)) (js ''TABLE t'') 2 30000
     = Inr \<lparr>rows = take 2 tableRows, rowCount = 3, totalAvailable = Some 3\<rparr>"
  by code_simp

subsection \<open>Truncation\<close>

lemma MysqlDriver_query_totalAvailable:
  "MysqlDriver_query up pool sql limit t = Inr r \<Longrightarrow> totalAvailable r = None"
  by (auto simp: MysqlDriver_query_def Let_def
      split: option.splits if_splits sum.splits MysqlAnswer.splits)

text \<open>
  C5. The claim: when the source of a read query has more rows than are returned, the
  outcome says so, and no driver reports a truncated result as complete. The MySQL and
  PostgreSQL drivers do not keep it. The table \<open>t\<close> holds three rows and
  \<open>SELECT a FROM t\<close> is run with the limit 2: the MySQL driver returns two rows and no
  \<open>totalAvailable\<close>; the PostgreSQL driver returns two rows and \<open>totalAvailable = 2\<close>,
  the row count of the limited statement; the caption of the table is \<open>(2 rows)\<close> for
  both, as for a complete result. The SQLite driver asks for one row more than the limit
  and reports \<open>totalAvailable = 3\<close>, which gives the caption \<open>(showing 2 of 3 rows)\<close>.
\<close>

theorem truncation_not_reported:
  "length tableRows = 3 \<and>
   driver_query asciiUpperCase (MysqlDriver (Some tableMysqlPool)) (js ''SELECT a FROM t'') 2 30000
     = Inr \<lparr>rows = take 2 tableRows, rowCount = 2, totalAvailable = None\<rparr> \<and>
   driver_query asciiUpperCase (PostgresDriver (Some tablePgPool)) (js ''SELECT a FROM t'') 2 30000
     = Inr \<lparr>rows = take 2 tableRows, rowCount = 2, totalAvailable = Some 2\<rparr> \<and>
   driver_query asciiUpperCase (SqliteDriver (Some tableDb)) (js ''SELECT a FROM t'') 2 30000
     = Inr \<lparr>rows = take 2 tableRows, rowCount = 2, totalAvailable = Some 3\<rparr> \<and>
   rowsCaption 2 None = [0x0A] @ js ''(2 rows)'' \<and>
   rowsCaption 2 (Some 2) = [0x0A] @ js ''(2 rows)'' \<and>
   rowsCaption 2 (Some 3) = [0x0A] @ js ''(showing 2 of 3 rows)''"
  by code_simp

subsection \<open>The default connection\<close>

text \<open>
  C6. The claim: a request that names no connection, under a configuration that names
  no default, uses the sole connection when there is exactly one and fails with an
  ambiguity error when there are several. The second half does not hold. With two
  connections \<open>a\<close> and \<open>b\<close> and no default connection in the configuration,
  \<open>resolveConfig\<close> makes the first key the default connection, so the request uses
  \<open>a\<close>; the ambiguity error of \<open>resolveConnectionName\<close> is reached only when the
  configured default is the empty string. The first half holds
  (\<open>resolveConnectionName_sole\<close>).
\<close>

theorem default_connection_first_key:
  "resolveConnectionName (resolveConfig (Some twoConnections)) None = Inr (js ''a'') \<and>
   resolveConnectionName
     (resolveConfig (Some (twoConnections\<lparr>raw_defaultConnection := Some []\<rparr>))) None
     = Inl (Error (js ''Multiple connections available (a, b). Specify which one to use.''))"
  by code_simp

lemma resolveConnectionName_first:
  assumes "raw_defaultConnection r = None" and "raw_connections r = Some cs"
    and "objectKeys cs = k # ks" and "k \<noteq> []"
  shows "resolveConnectionName (resolveConfig (Some r)) None = Inr k"
  using assms by (simp add: resolveConnectionName_def resolveConfig_def orElse_def)

lemma resolveConnectionName_sole:
  assumes "raw_defaultConnection r = None" and "raw_connections r = Some cs"
    and "objectKeys cs = [k]"
  shows "resolveConnectionName (resolveConfig (Some r)) None = Inr k"
  using assms by (simp add: resolveConnectionName_def resolveConfig_def orElse_def)

subsection \<open>The registry\<close>

text \<open>
  C7. When \<open>getDriver\<close> fails, the map \<open>drivers\<close> is as it was before the call and
  holds no entry for the name; and a later call for the same name, in a world where
  \<open>createDriver\<close> and \<open>connect\<close> succeed, constructs a driver anew, connects it,
  returns it and stores it.
\<close>

theorem getDriver_failure_not_cached:
  assumes "getDriver out cfg connectionName st = (Inl e, st')"
  shows "drivers st' = drivers st \<and> map_of (drivers st') connectionName = None \<and>
         (\<forall>connCfg d. map_of (connections cfg) connectionName = Some connCfg \<and>
            createDriver out' connCfg (constructed st') = Inr d \<and> connect out' d = None \<longrightarrow>
            getDriver out' cfg connectionName st' =
              (Inr d, \<lparr>drivers = mapSet connectionName d (drivers st'),
                       constructed = constructed st' + 1\<rparr>))"
proof -
  from assms have unchanged: "drivers st' = drivers st"
    by (auto simp: getDriver_def split: option.splits sum.splits)
  from assms have absent: "map_of (drivers st) connectionName = None"
    by (auto simp: getDriver_def split: option.splits sum.splits)
  with unchanged show ?thesis
    by (auto simp: getDriver_def)
qed

theorem getDriver_failure_not_cached_witness:
  "getDriver failingOutside oneConnection (js ''main'') \<lparr>drivers = [], constructed = 0\<rparr>
     = (Inl (Error (js ''Failed to open SQLite database'')), \<lparr>drivers = [], constructed = 1\<rparr>) \<and>
   getDriver workingOutside oneConnection (js ''main'') \<lparr>drivers = [], constructed = 1\<rparr>
     = (Inr (memoryDriver 1), \<lparr>drivers = [(js ''main'', memoryDriver 1)], constructed = 2\<rparr>)"
proof -
  have fail: "getDriver failingOutside oneConnection (js ''main'') \<lparr>drivers = [], constructed = 0\<rparr>
     = (Inl (Error (js ''Failed to open SQLite database'')), \<lparr>drivers = [], constructed = 1\<rparr>)"
    by code_simp
  have c: "map_of (connections oneConnection) (js ''main'') = Some memoryConnection"
    by code_simp
  have d: "createDriver workingOutside memoryConnection (constructed \<lparr>drivers = [], constructed = 1\<rparr>)
             = Inr (memoryDriver 1)"
    by code_simp
  have e: "connect workingOutside (memoryDriver 1) = None"
    by code_simp
  from getDriver_failure_not_cached [OF fail, of workingOutside] c d e
  have "getDriver workingOutside oneConnection (js ''main'') \<lparr>drivers = [], constructed = 1\<rparr> =
          (Inr (memoryDriver 1),
           \<lparr>drivers = mapSet (js ''main'') (memoryDriver 1) (drivers \<lparr>drivers = [], constructed = 1\<rparr>),
            constructed = constructed \<lparr>drivers = [], constructed = 1\<rparr> + 1\<rparr>)"
    by blast
  with fail show ?thesis by simp
qed

text \<open>
  A call that runs alone, part by part, is \<open>getDriver\<close>; and no part of a call but the
  last one of a successful call writes the map.
\<close>

lemma getDriver_alone:
  "runSchedule out cfg [0, 0, 0] (st, [Called connectionName]) =
     (snd (getDriver out cfg connectionName st),
      [case fst (getDriver out cfg connectionName st) of
         Inl e \<Rightarrow> Thrown e | Inr d \<Rightarrow> Returned d])"
  by (auto simp: getDriver_def split: option.splits sum.splits)

lemma stepCall_drivers:
  "stepCall out cfg st c = (st', c') \<Longrightarrow>
   drivers st' = drivers st \<or> (\<exists>n d. c = AwaitConnect n d None \<and> c' = Returned d)"
  by (cases "(out, cfg, st, c)" rule: stepCall.cases)
     (auto split: option.splits sum.splits)

text \<open>
  Calls made one after the other are the schedules in which each call runs its three
  parts before the next call starts.
\<close>

lemma runSchedule_append:
  "runSchedule out cfg (s1 @ s2) x = runSchedule out cfg s2 (runSchedule out cfg s1 x)"
proof (induction s1 arbitrary: x)
  case Nil
  then show ?case by simp
next
  case (Cons i s1)
  obtain st calls where x: "x = (st, calls)" by (cases x)
  show ?case unfolding x by (simp add: Cons.IH Let_def split: prod.splits)
qed

lemma runSchedule_one_call:
  "runSchedule out cfg [length before, length before, length before]
     (st, before @ Called connectionName # waiting) =
     (snd (getDriver out cfg connectionName st),
      before @ outcome (fst (getDriver out cfg connectionName st)) # waiting)"
  by (auto simp: getDriver_def split: option.splits sum.splits)

lemma runSchedule_sequential:
  "runSchedule out cfg (concat (map (\<lambda>i. [i, i, i]) [length before ..< length before + length names]))
     (st, before @ map Called names) =
     (snd (getDriverSeq out cfg names st),
      before @ map outcome (fst (getDriverSeq out cfg names st)))"
proof (induction names arbitrary: before st)
  case Nil
  then show ?case by simp
next
  case (Cons n names)
  let ?k = "length before"
  let ?later = "concat (map (\<lambda>i. [i, i, i]) [Suc ?k ..< Suc ?k + length names])"
  obtain r st' where g: "getDriver out cfg n st = (r, st')"
    by (cases "getDriver out cfg n st")
  obtain rs st'' where gs: "getDriverSeq out cfg names st' = (rs, st'')"
    by (cases "getDriverSeq out cfg names st'")
  have "[?k ..< ?k + length (n # names)] = ?k # [Suc ?k ..< Suc ?k + length names]"
    by (simp add: upt_conv_Cons del: upt_Suc)
  then have sched:
    "concat (map (\<lambda>i. [i, i, i]) [?k ..< ?k + length (n # names)]) = [?k, ?k, ?k] @ ?later"
    by simp
  have one: "runSchedule out cfg [?k, ?k, ?k] (st, before @ Called n # map Called names) =
             (st', before @ outcome r # map Called names)"
    unfolding runSchedule_one_call g by simp
  have "runSchedule out cfg ?later (st', (before @ [outcome r]) @ map Called names) =
        (st'', (before @ [outcome r]) @ map outcome rs)"
    using Cons.IH [of "before @ [outcome r]" st'] gs by simp
  then have rest: "runSchedule out cfg ?later (st', before @ outcome r # map Called names) =
        (st'', before @ outcome r # map outcome rs)"
    by simp
  have "runSchedule out cfg (concat (map (\<lambda>i. [i, i, i]) [?k ..< ?k + length (n # names)]))
          (st, before @ map Called (n # names)) =
        runSchedule out cfg ?later
          (runSchedule out cfg [?k, ?k, ?k] (st, before @ Called n # map Called names))"
    unfolding sched runSchedule_append by simp
  also have "\<dots> = (st'', before @ outcome r # map outcome rs)"
    unfolding one rest ..
  finally show ?case
    by (simp add: g gs)
qed

text \<open>
  C8, as stated, fails: two calls for the same name that start before either has
  finished each find the map empty, each construct and connect a driver of their own,
  and each return their own: two driver objects for one name, the map holding the
  second. Nothing in \<open>getDriver\<close> remembers a call that is under way.
\<close>

theorem getDriver_race_two_instances:
  "runSchedule workingOutside oneConnection [0, 1, 0, 1, 0, 1]
     (\<lparr>drivers = [], constructed = 0\<rparr>, [Called (js ''main''), Called (js ''main'')])
   = (\<lparr>drivers = [(js ''main'', memoryDriver 1)], constructed = 2\<rparr>,
      [Returned (memoryDriver 0), Returned (memoryDriver 1)]) \<and>
   memoryDriver 0 \<noteq> memoryDriver 1"
  by code_simp

text \<open>
  This is so for every name that the map does not hold, whenever both drivers can be
  constructed and connected: the two calls return two different objects.
\<close>

lemma getDriver_overlap:
  assumes "map_of (drivers st) n = None" and "map_of (connections cfg) n = Some connCfg"
    and "createDriver out connCfg (constructed st) = Inr d0"
    and "createDriver out connCfg (constructed st + 1) = Inr d1"
    and "connect out d0 = None" and "connect out d1 = None"
  shows "runSchedule out cfg [0, 1, 0, 1, 0, 1] (st, [Called n, Called n]) =
           (\<lparr>drivers = mapSet n d1 (mapSet n d0 (drivers st)), constructed = constructed st + 2\<rparr>,
            [Returned d0, Returned d1]) \<and>
         d0 \<noteq> d1"
proof -
  from assms(3,4) have "instanceId d0 = constructed st" "instanceId d1 = constructed st + 1"
    by (auto simp: createDriver_def split: if_splits sum.splits)
  then have "d0 \<noteq> d1" by auto
  with assms show ?thesis by simp
qed

lemma map_of_mapSet: "map_of (mapSet k v m) k = Some v"
  by (induction m) auto

lemma map_of_mapSet_other: "k' \<noteq> k \<Longrightarrow> map_of (mapSet k v m) k' = map_of m k'"
  by (induction m) auto

lemma getDriver_keeps:
  assumes "map_of (drivers st) n = Some d" and "getDriver out cfg m st = (r, st')"
  shows "map_of (drivers st') n = Some d"
proof (cases "m = n")
  case True
  with assms show ?thesis by (simp add: getDriver_def)
next
  case False
  then have "map_of (mapSet m x (drivers st)) n = map_of (drivers st) n" for x
    by (simp add: map_of_mapSet_other)
  with assms show ?thesis
    by (auto simp: getDriver_def split: option.splits sum.splits)
qed

lemma getDriverSeq_keeps:
  assumes "map_of (drivers st) n = Some d" and "getDriverSeq out cfg names st = (results, st')"
  shows "map_of (drivers st') n = Some d \<and>
         (\<forall>i < length names. names ! i = n \<longrightarrow> results ! i = Inr d)"
  using assms
proof (induction names arbitrary: st results st')
  case Nil
  then show ?case by simp
next
  case (Cons m names)
  obtain r st1 where g: "getDriver out cfg m st = (r, st1)"
    by (cases "getDriver out cfg m st")
  obtain rs st2 where gs: "getDriverSeq out cfg names st1 = (rs, st2)"
    by (cases "getDriverSeq out cfg names st1")
  from Cons.prems(2) g gs have res: "results = r # rs" and st': "st' = st2"
    by simp_all
  from getDriver_keeps [OF Cons.prems(1) g] have k: "map_of (drivers st1) n = Some d" .
  from Cons.IH [OF k gs] have ih: "map_of (drivers st2) n = Some d"
    "\<forall>i < length names. names ! i = n \<longrightarrow> rs ! i = Inr d"
    by simp_all
  have hd: "m = n \<longrightarrow> r = Inr d"
    using Cons.prems(1) g by (auto simp: getDriver_def)
  have "\<forall>i < length (m # names). (m # names) ! i = n \<longrightarrow> (r # rs) ! i = Inr d"
  proof (intro allI impI)
    fix i
    assume "i < length (m # names)" and "(m # names) ! i = n"
    with hd ih(2) show "(r # rs) ! i = Inr d"
      by (cases i) auto
  qed
  with ih(1) res st' show ?case by simp
qed

text \<open>
  C8, amended, for calls that do not overlap. Once a call of \<open>getDriver\<close> for a name has
  returned a driver, then after any further calls made one after the other (for this
  name or for others) the map still holds that driver under the name, each of these
  calls that was for the name has returned the same driver, and one more call for the
  name, whatever the world then is, returns the same driver and leaves the state as it
  is: it constructs and connects nothing. The first call constructed exactly one
  driver when the map held none for the name, and none otherwise.
\<close>

theorem getDriver_single_instance:
  assumes "getDriver out cfg connectionName st = (Inr d, st1)"
    and "getDriverSeq out cfg others st1 = (results, st2)"
  shows "map_of (drivers st2) connectionName = Some d \<and>
         (\<forall>i < length others. others ! i = connectionName \<longrightarrow> results ! i = Inr d) \<and>
         getDriver out' cfg connectionName st2 = (Inr d, st2) \<and>
         (if map_of (drivers st) connectionName = None
          then constructed st1 = constructed st + 1
          else st1 = st)"
proof -
  from assms(1) have stored: "map_of (drivers st1) connectionName = Some d"
    by (auto simp: getDriver_def map_of_mapSet split: option.splits sum.splits)
  from assms(1) have count: "if map_of (drivers st) connectionName = None
          then constructed st1 = constructed st + 1 else st1 = st"
    by (auto simp: getDriver_def split: option.splits sum.splits)
  from getDriverSeq_keeps [OF stored assms(2)]
  have kept: "map_of (drivers st2) connectionName = Some d"
    and same: "\<forall>i < length others. others ! i = connectionName \<longrightarrow> results ! i = Inr d"
    by simp_all
  from kept have "getDriver out' cfg connectionName st2 = (Inr d, st2)"
    by (simp add: getDriver_def)
  with kept same count show ?thesis by simp
qed

theorem getDriver_single_instance_witness:
  "getDriver workingOutside oneConnection (js ''main'') \<lparr>drivers = [], constructed = 0\<rparr>
     = (Inr (memoryDriver 0), \<lparr>drivers = [(js ''main'', memoryDriver 0)], constructed = 1\<rparr>) \<and>
   getDriverSeq workingOutside oneConnection [js ''other'', js ''main'', js ''main'']
       \<lparr>drivers = [(js ''main'', memoryDriver 0)], constructed = 1\<rparr>
     = ([Inl (notFound oneConnection (js ''other'')), Inr (memoryDriver 0), Inr (memoryDriver 0)],
        \<lparr>drivers = [(js ''main'', memoryDriver 0)], constructed = 1\<rparr>) \<and>
   getDriver failingOutside oneConnection (js ''main'')
       \<lparr>drivers = [(js ''main'', memoryDriver 0)], constructed = 1\<rparr>
     = (Inr (memoryDriver 0), \<lparr>drivers = [(js ''main'', memoryDriver 0)], constructed = 1\<rparr>) \<and>
   runSchedule workingOutside oneConnection [0, 0, 0, 1, 1, 1, 2, 2, 2, 3, 3, 3]
     (\<lparr>drivers = [], constructed = 0\<rparr>,
      [Called (js ''main''), Called (js ''other''), Called (js ''main''), Called (js ''main'')])
   = (\<lparr>drivers = [(js ''main'', memoryDriver 0)], constructed = 1\<rparr>,
      [Returned (memoryDriver 0), Thrown (notFound oneConnection (js ''other'')),
       Returned (memoryDriver 0), Returned (memoryDriver 0)])"
proof -
  have first: "getDriver workingOutside oneConnection (js ''main'') \<lparr>drivers = [], constructed = 0\<rparr>
     = (Inr (memoryDriver 0), \<lparr>drivers = [(js ''main'', memoryDriver 0)], constructed = 1\<rparr>)"
    by code_simp
  have later: "getDriverSeq workingOutside oneConnection [js ''other'', js ''main'', js ''main'']
       \<lparr>drivers = [(js ''main'', memoryDriver 0)], constructed = 1\<rparr>
     = ([Inl (notFound oneConnection (js ''other'')), Inr (memoryDriver 0), Inr (memoryDriver 0)],
        \<lparr>drivers = [(js ''main'', memoryDriver 0)], constructed = 1\<rparr>)"
    by code_simp
  have run: "runSchedule workingOutside oneConnection [0, 0, 0, 1, 1, 1, 2, 2, 2, 3, 3, 3]
     (\<lparr>drivers = [], constructed = 0\<rparr>,
      [Called (js ''main''), Called (js ''other''), Called (js ''main''), Called (js ''main'')])
   = (\<lparr>drivers = [(js ''main'', memoryDriver 0)], constructed = 1\<rparr>,
      [Returned (memoryDriver 0), Thrown (notFound oneConnection (js ''other'')),
       Returned (memoryDriver 0), Returned (memoryDriver 0)])"
    by code_simp
  from getDriver_single_instance [OF first later, of failingOutside] first later run
  show ?thesis by blast
qed

end
